theory Spec2Isabelle
  imports Main "HOL-Library.Char_ord" "HOL-Library.List_Lexorder"
begin

section \<open>The data-access layer: models/database_manager.py\<close>

text \<open>
  The class \<^verbatim>\<open>DatabaseManager\<close> wraps one connection of Python's \<^verbatim>\<open>sqlite3\<close> module.
  The storage engine is not code of the repository, so the manager is modelled over an
  arbitrary engine: a function that runs one statement with its bound values on the
  database as the connection sees it and yields either an exception or a cursor,
  together with the database the connection sees afterwards.

  Exceptions are values. The handler of \<^verbatim>\<open>execute_query\<close> is
  \<^verbatim>\<open>except sqlite3.Error\<close>, so the model keeps apart the exceptions that derive from
  \<^verbatim>\<open>sqlite3.Error\<close> and the others (a \<^verbatim>\<open>TypeError\<close> of the binding layer, say).
\<close>

datatype 'e py_exception = SqliteError 'e | OtherException string

type_synonym 'v row = "(string \<times> 'v) list"

text \<open>What a cursor holds after \<^verbatim>\<open>cursor.execute\<close>: the result rows, each a list of
  (column name, value), and \<^verbatim>\<open>cursor.rowcount\<close>.\<close>

record 'v cursor =
  fetched :: "'v row list"
  rowcount :: int

text \<open>\<^verbatim>\<open>connection.row_factory\<close>: unset (rows are plain tuples) or \<^verbatim>\<open>sqlite3.Row\<close>
  (rows can be read by column name).\<close>

datatype row_factory = NoFactory | RowFactory

datatype 'v py_row = Row "'v row" | Tuple "'v list"

fun deliver :: "row_factory \<Rightarrow> 'v row \<Rightarrow> 'v py_row" where
  "deliver RowFactory r = Row r"
| "deliver NoFactory r = Tuple (map snd r)"

type_synonym ('q, 'v, 'e, 'db) engine =
  "bool \<Rightarrow> 'q \<Rightarrow> 'v list \<Rightarrow> 'db \<Rightarrow> ('e py_exception + 'v cursor) \<times> 'db"

text \<open>
  A connection object: its identity (\<open>handle\<close>, a fresh number for every
  \<^verbatim>\<open>sqlite3.connect\<close>), the setting of \<^verbatim>\<open>PRAGMA foreign_keys\<close>, the row factory, and
  the database as this connection sees it, uncommitted writes included (\<open>pending\<close>).
\<close>

record 'db sqlite_connection =
  handle :: nat
  foreign_keys :: bool
  row_factory :: row_factory
  pending :: 'db

text \<open>
  The manager has the two attributes of the class, \<open>db_name\<close> and \<open>connection\<close>. The
  other fields are the world around it, threaded through every call: \<open>db_file\<close> is the
  committed content of the database file, \<open>open_handles\<close> lists the connections that
  were opened and not yet closed, \<open>handles_made\<close> counts the calls of
  \<^verbatim>\<open>sqlite3.connect\<close>, and \<open>issued\<close> is the trace of the statements handed to
  \<^verbatim>\<open>cursor.execute\<close>, oldest first.

  Not modelled: a failure of \<^verbatim>\<open>sqlite3.connect\<close>, of \<^verbatim>\<open>commit\<close> or of \<^verbatim>\<open>rollback\<close>
  (the file can always be opened and written), other processes that open the same file,
  and statements that switch \<^verbatim>\<open>PRAGMA foreign_keys\<close>: the engine reads the setting
  and cannot change it.
\<close>

record ('q, 'db) manager =
  db_name :: string
  connection :: "'db sqlite_connection option"
  db_file :: 'db
  open_handles :: "nat list"
  handles_made :: nat
  issued :: "'q list"

text \<open>\<^verbatim>\<open>__init__\<close>, with the content of the file named \<open>db_name\<close>.\<close>

definition init :: "string \<Rightarrow> 'db \<Rightarrow> ('q, 'db) manager" where
  "init name file =
     \<lparr>db_name = name, connection = None, db_file = file,
      open_handles = [], handles_made = 0, issued = []\<rparr>"

text \<open>\<^verbatim>\<open>sqlite3.connect(self.db_name)\<close>: a new connection with the defaults of the
  library (foreign keys not enforced, no row factory) that sees the committed file.\<close>

definition sqlite3_connect ::
  "('q, 'db) manager \<Rightarrow> 'db sqlite_connection \<times> ('q, 'db) manager" where
  "sqlite3_connect m =
     (\<lparr>handle = handles_made m, foreign_keys = False, row_factory = NoFactory,
       pending = db_file m\<rparr>,
      m\<lparr>open_handles := handles_made m # open_handles m,
        handles_made := Suc (handles_made m)\<rparr>)"

definition connect ::
  "('q, 'db) manager \<Rightarrow> 'db sqlite_connection \<times> ('q, 'db) manager" where
  "connect m =
     (case connection m of
        None \<Rightarrow>
          (let (c0, m1) = sqlite3_connect m;
               c1 = c0\<lparr>foreign_keys := True\<rparr>;
               c2 = c1\<lparr>row_factory := RowFactory\<rparr>
           in (c2, m1\<lparr>connection := Some c2\<rparr>))
      | Some c \<Rightarrow> (c, m))"

text \<open>Python's truth value of the argument \<open>params\<close>: \<^verbatim>\<open>None\<close> and the empty
  tuple are false.\<close>

fun truthy :: "'v list option \<Rightarrow> bool" where
  "truthy None = False"
| "truthy (Some ps) = (ps \<noteq> [])"

fun bound_values :: "'v list option \<Rightarrow> 'v list" where
  "bound_values None = []"
| "bound_values (Some ps) = ps"

text \<open>\<^verbatim>\<open>cursor.execute(query, parameters)\<close> on the connection \<open>c\<close>; the connection
  object is shared with the manager, so the manager's attribute sees the update.
  \<^verbatim>\<open>cursor.execute(query)\<close> is the same call with the library's default, the empty
  tuple.\<close>

definition cursor_execute ::
  "('q, 'v, 'e, 'db) engine \<Rightarrow> 'db sqlite_connection \<Rightarrow> 'q \<Rightarrow> 'v list \<Rightarrow> ('q, 'db) manager \<Rightarrow>
   ('e py_exception + 'v cursor) \<times> 'db sqlite_connection \<times> ('q, 'db) manager" where
  "cursor_execute E c q ps m =
     (let (r, db') = E (foreign_keys c) q ps (pending c);
          c' = c\<lparr>pending := db'\<rparr>
      in (r, c', m\<lparr>connection := Some c', issued := issued m @ [q]\<rparr>))"

definition conn_commit :: "'db sqlite_connection \<Rightarrow> ('q, 'db) manager \<Rightarrow> ('q, 'db) manager" where
  "conn_commit c m = m\<lparr>db_file := pending c\<rparr>"

definition conn_rollback :: "'db sqlite_connection \<Rightarrow> ('q, 'db) manager \<Rightarrow> ('q, 'db) manager" where
  "conn_rollback c m = m\<lparr>connection := Some (c\<lparr>pending := db_file m\<rparr>)\<rparr>"

text \<open>The \<^verbatim>\<open>if params: ... else: ...\<close> of the three query methods.\<close>

definition run_statement ::
  "('q, 'v, 'e, 'db) engine \<Rightarrow> 'db sqlite_connection \<Rightarrow> 'q \<Rightarrow> 'v list option \<Rightarrow>
   ('q, 'db) manager \<Rightarrow>
   ('e py_exception + 'v cursor) \<times> 'db sqlite_connection \<times> ('q, 'db) manager" where
  "run_statement E c q params m =
     (if truthy params then cursor_execute E c q (bound_values params) m
      else cursor_execute E c q [] m)"

definition execute_query ::
  "('q, 'v, 'e, 'db) engine \<Rightarrow> ('q, 'db) manager \<Rightarrow> 'q \<Rightarrow> 'v list option \<Rightarrow>
   ('e py_exception + int) \<times> ('q, 'db) manager" where
  "execute_query E m q params =
     (let (conn, m1) = connect m;
          (r, conn1, m2) = run_statement E conn q params m1
      in case r of
           Inr cur \<Rightarrow> (Inr (rowcount cur), conn_commit conn1 m2)
         | Inl (SqliteError e) \<Rightarrow> (Inl (SqliteError e), conn_rollback conn1 m2)
         | Inl (OtherException x) \<Rightarrow> (Inl (OtherException x), m2))"

definition fetch_all ::
  "('q, 'v, 'e, 'db) engine \<Rightarrow> ('q, 'db) manager \<Rightarrow> 'q \<Rightarrow> 'v list option \<Rightarrow>
   ('e py_exception + 'v py_row list) \<times> ('q, 'db) manager" where
  "fetch_all E m q params =
     (let (conn, m1) = connect m;
          (r, conn1, m2) = run_statement E conn q params m1
      in case r of
           Inr cur \<Rightarrow> (Inr (map (deliver (row_factory conn1)) (fetched cur)), m2)
         | Inl e \<Rightarrow> (Inl e, m2))"

definition fetch_one ::
  "('q, 'v, 'e, 'db) engine \<Rightarrow> ('q, 'db) manager \<Rightarrow> 'q \<Rightarrow> 'v list option \<Rightarrow>
   ('e py_exception + 'v py_row option) \<times> ('q, 'db) manager" where
  "fetch_one E m q params =
     (let (conn, m1) = connect m;
          (r, conn1, m2) = run_statement E conn q params m1
      in case r of
           Inr cur \<Rightarrow>
             (Inr (case fetched cur of
                     [] \<Rightarrow> None
                   | r # _ \<Rightarrow> Some (deliver (row_factory conn1) r)), m2)
         | Inl e \<Rightarrow> (Inl e, m2))"

text \<open>\<^verbatim>\<open>close\<close>: a connection object is always true in Python, so the test
  \<^verbatim>\<open>if self.connection\<close> fails exactly on \<^verbatim>\<open>None\<close>. Closing drops what the
  connection had not committed.\<close>

definition close :: "('q, 'db) manager \<Rightarrow> ('q, 'db) manager" where
  "close m =
     (case connection m of
        Some c \<Rightarrow> m\<lparr>open_handles := remove1 (handle c) (open_handles m), connection := None\<rparr>
      | None \<Rightarrow> m)"

text \<open>\<^verbatim>\<open>__enter__\<close> returns \<^verbatim>\<open>self\<close> and does nothing else. \<^verbatim>\<open>__exit__\<close> closes and
  returns \<^verbatim>\<open>None\<close>, which is false: the exception of the body is not swallowed.\<close>

definition enter :: "('q, 'db) manager \<Rightarrow> ('q, 'db) manager" where
  "enter m = m"

definition exit :: "('q, 'db) manager \<Rightarrow> 'x option \<Rightarrow> bool \<times> ('q, 'db) manager" where
  "exit m exc = (False, close m)"

text \<open>
  Python's \<^verbatim>\<open>with DatabaseManager(...) as db: body\<close>. The body gets what \<^verbatim>\<open>__enter__\<close>
  returned; \<^verbatim>\<open>__exit__\<close> runs when the body returns and when it raises, and the
  exception goes on unless \<^verbatim>\<open>__exit__\<close> returned a true value (then the statement
  ends normally, with no value: \<open>None\<close>).
\<close>

definition with_manager ::
  "('q, 'db) manager \<Rightarrow> (('q, 'db) manager \<Rightarrow> ('x + 'a) \<times> ('q, 'db) manager) \<Rightarrow>
   ('x + 'a option) \<times> ('q, 'db) manager" where
  "with_manager m body =
     (let db = enter m;
          (r, m1) = body db
      in case r of
           Inr a \<Rightarrow> (let (_, m2) = exit m1 (None :: 'x option) in (Inr (Some a), m2))
         | Inl x \<Rightarrow>
             (let (swallow, m2) = exit m1 (Some x)
              in (if swallow then Inr None else Inl x, m2)))"

section \<open>The storage engine: SQLite as the repository uses it\<close>

text \<open>
  The claims about constraints, cascades and the catalogue are decided by SQLite, which
  is not part of the repository. This section is a model of the documented behaviour of
  SQLite for the statements the repository sends: what a table declaration of
  models/schema.py means when rows are inserted and deleted. It is generic in the
  declarations; the five declarations of \<^verbatim>\<open>create_tables\<close> are transcribed below from
  the SQL text.

  Assumptions of the model. Every table has an \<^verbatim>\<open>INTEGER PRIMARY KEY\<close> column (the
  alias of the rowid), as all tables of the repository have. Values are \<^verbatim>\<open>NULL\<close>,
  integers and text, and are stored as given: the conversions of type affinity are not
  modelled. Names are compared exactly. A statement is a value of \<open>statement\<close>: the SQL
  text is not parsed, and a text that is no statement is \<open>NotSQL\<close>.
\<close>

datatype val = Null | Integer int | Text string

datatype affinity = INTEGER | TEXT

datatype fk_action = NoAction | Cascade

datatype violation = NotNull | Unique | Check | ForeignKey | DatatypeMismatch

datatype sqlite_error =
    IntegrityError violation
  | OperationalError string
  | ProgrammingError string

record column_decl =
  col_name :: string
  col_type :: affinity
  not_null :: bool
  default_value :: val

record foreign_key =
  fk_column :: string
  parent_table :: string
  parent_column :: string
  on_delete :: fk_action

text \<open>\<^verbatim>\<open>CHECK (a != b)\<close>, the one form of check constraint in the schema.\<close>

datatype check_constraint = Differ string string

text \<open>\<open>unique_keys\<close> holds the \<^verbatim>\<open>UNIQUE\<close> constraints (of a column or of the table);
  the primary key is kept apart.\<close>

record table_decl =
  columns :: "column_decl list"
  primary_key :: string
  unique_keys :: "string list list"
  foreign_key_decls :: "foreign_key list"
  checks :: "check_constraint list"

record table =
  decl :: table_decl
  contents :: "val row list"

text \<open>A database: its tables by name, in the order of creation.\<close>

type_synonym database = "(string \<times> table) list"

datatype conflict = Abort | Ignore

datatype statement =
    CreateTable bool string table_decl
  | DropTable bool string
  | InsertInto conflict string "string list"
  | DeleteWhere string string
  | SelectAll string
  | SelectWhere string string
  | SelectTableNames
  | SelectTableNamed
  | NotSQL string

text \<open>
  \<open>CreateTable ine t d\<close> is \<^verbatim>\<open>CREATE TABLE [IF NOT EXISTS] t (d)\<close>;
  \<open>DropTable ie t\<close> is \<^verbatim>\<open>DROP TABLE [IF EXISTS] t\<close>;
  \<open>InsertInto c t cols\<close> is \<^verbatim>\<open>INSERT [OR IGNORE] INTO t (cols) VALUES (?, ..., ?)\<close>,
  one placeholder for each column;
  \<open>DeleteWhere t c\<close> is \<^verbatim>\<open>DELETE FROM t WHERE c = ?\<close>;
  \<open>SelectAll t\<close> is \<^verbatim>\<open>SELECT * FROM t\<close> and \<open>SelectWhere t c\<close> is
  \<^verbatim>\<open>SELECT * FROM t WHERE c = ?\<close>;
  \<open>SelectTableNames\<close> is the query of \<^verbatim>\<open>get_table_names\<close>,
  \<^verbatim>\<open>SELECT name FROM sqlite_master WHERE type='table' AND name NOT LIKE 'sqlite_%' ORDER BY name\<close>;
  \<open>SelectTableNamed\<close> is the query of \<^verbatim>\<open>table_exists\<close>,
  \<^verbatim>\<open>SELECT name FROM sqlite_master WHERE type='table' AND name = ?\<close>.
\<close>

fun placeholders :: "statement \<Rightarrow> nat" where
  "placeholders (InsertInto c t cols) = length cols"
| "placeholders (DeleteWhere t c) = 1"
| "placeholders (SelectWhere t c) = 1"
| "placeholders SelectTableNamed = 1"
| "placeholders _ = 0"

definition lookup :: "val row \<Rightarrow> string \<Rightarrow> val" where
  "lookup r c = (case map_of r c of Some v \<Rightarrow> v | None \<Rightarrow> Null)"

definition column_names :: "table_decl \<Rightarrow> string list" where
  "column_names d = map col_name (columns d)"

definition modify_table :: "string \<Rightarrow> (table \<Rightarrow> table) \<Rightarrow> database \<Rightarrow> database" where
  "modify_table name f db = map (\<lambda>(n, t). if n = name then (n, f t) else (n, t)) db"

subsection \<open>The operator LIKE\<close>

text \<open>SQLite's \<^verbatim>\<open>LIKE\<close>: \<^verbatim>\<open>%\<close> stands for any run of characters, \<^verbatim>\<open>_\<close> for any one
  character, and ASCII letters match without regard to case.\<close>

definition lower :: "char \<Rightarrow> char" where
  "lower c = (if CHR ''A'' \<le> c \<and> c \<le> CHR ''Z'' then char_of (of_char c + (32::nat)) else c)"

fun like :: "string \<Rightarrow> string \<Rightarrow> bool" where
  "like [] s = (s = [])"
| "like (p # ps) s =
     (if p = CHR ''%'' then
        (like ps s \<or> (case s of [] \<Rightarrow> False | c # t \<Rightarrow> like (p # ps) t))
      else
        (case s of
           [] \<Rightarrow> False
         | c # t \<Rightarrow> (p = CHR ''_'' \<or> lower p = lower c) \<and> like ps t))"

subsection \<open>Inserting a row\<close>

text \<open>The row that \<^verbatim>\<open>INSERT INTO t (cols) VALUES (vals)\<close> builds: a column that is not
  named gets its default.\<close>

definition complete_row :: "table_decl \<Rightarrow> string list \<Rightarrow> val list \<Rightarrow> val row" where
  "complete_row d cols vals =
     map (\<lambda>c. (col_name c,
               (case map_of (zip cols vals) (col_name c) of
                  Some v \<Rightarrow> v
                | None \<Rightarrow> default_value c)))
         (columns d)"

text \<open>The rowids in use, and the rowid SQLite picks for a row whose primary key is
  \<^verbatim>\<open>NULL\<close>: one more than the largest in use, 1 in an empty table.\<close>

fun rowid_of :: "val \<Rightarrow> int list" where
  "rowid_of (Integer i) = [i]"
| "rowid_of _ = []"

definition rowids :: "table \<Rightarrow> int list" where
  "rowids t = concat (map (\<lambda>r. rowid_of (lookup r (primary_key (decl t)))) (contents t))"

definition next_rowid :: "table \<Rightarrow> int" where
  "next_rowid t = (case rowids t of [] \<Rightarrow> 1 | i # is \<Rightarrow> fold max is i + 1)"

definition set_column :: "string \<Rightarrow> val \<Rightarrow> val row \<Rightarrow> val row" where
  "set_column c v r = map (\<lambda>(n, x). if n = c then (n, v) else (n, x)) r"

definition not_null_ok :: "table_decl \<Rightarrow> val row \<Rightarrow> bool" where
  "not_null_ok d r =
     list_all (\<lambda>c. if not_null c then lookup r (col_name c) \<noteq> Null else True) (columns d)"

fun check_holds :: "val row \<Rightarrow> check_constraint \<Rightarrow> bool" where
  "check_holds r (Differ a b) =
     (lookup r a = Null \<or> lookup r b = Null \<or> lookup r a \<noteq> lookup r b)"

definition checks_ok :: "table_decl \<Rightarrow> val row \<Rightarrow> bool" where
  "checks_ok d r = list_all (check_holds r) (checks d)"

text \<open>Two rows collide on a key when all its columns are not \<^verbatim>\<open>NULL\<close> and equal.\<close>

definition same_key :: "val row \<Rightarrow> val row \<Rightarrow> string list \<Rightarrow> bool" where
  "same_key r other key =
     list_all (\<lambda>c. lookup r c \<noteq> Null \<and> lookup r c = lookup other c) key"

definition unique_ok :: "table \<Rightarrow> val row \<Rightarrow> bool" where
  "unique_ok t r =
     (\<not> list_ex (\<lambda>other. list_ex (same_key r other)
                           ([primary_key (decl t)] # unique_keys (decl t)))
          (contents t))"

text \<open>A child key is satisfied when it is \<^verbatim>\<open>NULL\<close> or some row of the parent table
  has it in the parent column.\<close>

definition has_parent :: "database \<Rightarrow> val row \<Rightarrow> foreign_key \<Rightarrow> bool" where
  "has_parent db r f =
     (lookup r (fk_column f) = Null \<or>
      (case map_of db (parent_table f) of
         None \<Rightarrow> False
       | Some p \<Rightarrow>
           list_ex (\<lambda>pr. lookup pr (parent_column f) = lookup r (fk_column f)) (contents p)))"

definition parents_ok :: "database \<Rightarrow> table_decl \<Rightarrow> val row \<Rightarrow> bool" where
  "parents_ok db d r = list_all (has_parent db r) (foreign_key_decls d)"

definition parent_tables_exist :: "database \<Rightarrow> table_decl \<Rightarrow> bool" where
  "parent_tables_exist db d =
     list_all (\<lambda>f. map_of db (parent_table f) \<noteq> None) (foreign_key_decls d)"

definition no_cursor :: "val cursor" where
  "no_cursor = \<lparr>fetched = [], rowcount = - 1\<rparr>"

definition changed :: "int \<Rightarrow> val cursor" where
  "changed n = \<lparr>fetched = [], rowcount = n\<rparr>"

definition selected :: "val row list \<Rightarrow> val cursor" where
  "selected rs = \<lparr>fetched = rs, rowcount = - 1\<rparr>"

type_synonym outcome = "(sqlite_error py_exception + val cursor) \<times> database"

definition raise_sqlite :: "sqlite_error \<Rightarrow> database \<Rightarrow> outcome" where
  "raise_sqlite e db = (Inl (SqliteError e), db)"

text \<open>
  The constraint that stops a completed row, if any. The conflict clause applies to
  \<^verbatim>\<open>NOT NULL\<close>, \<^verbatim>\<open>CHECK\<close>, \<^verbatim>\<open>PRIMARY KEY\<close> and \<^verbatim>\<open>UNIQUE\<close>; they are tested before
  the row is written.
\<close>

definition row_conflict :: "table \<Rightarrow> val row \<Rightarrow> violation option" where
  "row_conflict t r =
     (if \<not> not_null_ok (decl t) r then Some NotNull
      else if \<not> checks_ok (decl t) r then Some Check
      else if \<not> unique_ok t r then Some Unique
      else None)"

text \<open>
  \<^verbatim>\<open>INSERT [OR IGNORE]\<close> of one row. With \<^verbatim>\<open>OR IGNORE\<close> a row that breaks
  \<^verbatim>\<open>NOT NULL\<close>, \<^verbatim>\<open>CHECK\<close>, the primary key or \<^verbatim>\<open>UNIQUE\<close> is skipped without an
  error; a foreign-key violation raises under both conflict clauses. Foreign keys are
  tested on the database with the new row in it, and only when the connection enforces
  them.
\<close>

definition insert_row ::
  "bool \<Rightarrow> conflict \<Rightarrow> string \<Rightarrow> string list \<Rightarrow> val list \<Rightarrow> database \<Rightarrow> outcome" where
  "insert_row fk cf name cols vals db =
     (case map_of db name of
        None \<Rightarrow> raise_sqlite (OperationalError ''no such table'') db
      | Some t \<Rightarrow>
          if \<not> list_all (\<lambda>c. c \<in> set (column_names (decl t))) cols then
            raise_sqlite (OperationalError ''no such column'') db
          else if fk \<and> \<not> parent_tables_exist db (decl t) then
            raise_sqlite (OperationalError ''no such table'') db
          else if length vals \<noteq> length cols then
            raise_sqlite (ProgrammingError ''Incorrect number of bindings supplied'') db
          else
            (let r0 = complete_row (decl t) cols vals;
                 pk = primary_key (decl t)
             in case lookup r0 pk of
                  Text s \<Rightarrow> raise_sqlite (IntegrityError DatatypeMismatch) db
                | key \<Rightarrow>
                    (let r = (if key = Null then set_column pk (Integer (next_rowid t)) r0
                              else r0)
                     in case row_conflict t r of
                          Some v \<Rightarrow>
                            (case cf of
                               Abort \<Rightarrow> raise_sqlite (IntegrityError v) db
                             | Ignore \<Rightarrow> (Inr (changed 0), db))
                        | None \<Rightarrow>
                            (let db' = modify_table name
                                         (\<lambda>t. t\<lparr>contents := contents t @ [r]\<rparr>) db
                             in if fk \<and> \<not> parents_ok db' (decl t) r then
                                  raise_sqlite (IntegrityError ForeignKey) db
                                else (Inr (changed 1), db')))))"

subsection \<open>Deleting rows\<close>

text \<open>
  A row is named by its table and its content. \<open>refers f r dead\<close>: the child key of
  \<open>r\<close> under the foreign key \<open>f\<close> is the parent key of a row in \<open>dead\<close>.
\<close>

definition refers :: "foreign_key \<Rightarrow> val row \<Rightarrow> (string \<times> val row) list \<Rightarrow> bool" where
  "refers f r dead =
     (lookup r (fk_column f) \<noteq> Null \<and>
      list_ex (\<lambda>(p, pr). p = parent_table f \<and>
                         lookup pr (parent_column f) = lookup r (fk_column f)) dead)"

definition orphaned :: "fk_action \<Rightarrow> table_decl \<Rightarrow> val row \<Rightarrow> (string \<times> val row) list \<Rightarrow> bool" where
  "orphaned a d r dead =
     list_ex (\<lambda>f. on_delete f = a \<and> refers f r dead) (foreign_key_decls d)"

text \<open>The rows that are still alive and lose a parent through a foreign key with
  the action \<open>a\<close>.\<close>

definition orphans :: "fk_action \<Rightarrow> database \<Rightarrow> (string \<times> val row) list \<Rightarrow> (string \<times> val row) list" where
  "orphans a db dead =
     concat (map (\<lambda>(n, t). map (Pair n)
                    (filter (\<lambda>r. (n, r) \<notin> set dead \<and> orphaned a (decl t) r dead) (contents t)))
             db)"

definition all_rows :: "database \<Rightarrow> (string \<times> val row) set" where
  "all_rows db = (\<Union>(n, t) \<in> set db. Pair n ` set (contents t))"

lemma orphans_in_db: "set (orphans a db dead) \<subseteq> all_rows db - set dead"
  by (auto simp: orphans_def all_rows_def)

lemma finite_all_rows: "finite (all_rows db)"
  by (auto simp: all_rows_def)

lemma orphans_decrease:
  assumes "orphans a db dead \<noteq> []"
  shows "card (all_rows db - (set dead \<union> set (orphans a db dead)))
         < card (all_rows db - set dead)"
proof -
  obtain x where x: "x \<in> set (orphans a db dead)"
    using assms by (cases "orphans a db dead") auto
  then have "x \<in> all_rows db - set dead"
    using orphans_in_db by blast
  moreover have "x \<notin> all_rows db - (set dead \<union> set (orphans a db dead))"
    using x by simp
  ultimately have "all_rows db - (set dead \<union> set (orphans a db dead))
                   \<subset> all_rows db - set dead"
    by auto
  then show ?thesis
    by (intro psubset_card_mono) (simp_all add: finite_all_rows)
qed

text \<open>\<^verbatim>\<open>ON DELETE CASCADE\<close>: the rows that go with the rows in \<open>dead\<close>, children of
  children included. Every round takes rows that were alive, so the rounds end.\<close>

function cascade :: "database \<Rightarrow> (string \<times> val row) list \<Rightarrow> (string \<times> val row) list" where
  "cascade db dead =
     (if orphans Cascade db dead = [] then dead
      else cascade db (dead @ orphans Cascade db dead))"
  by pat_completeness auto
termination
  by (relation "measure (\<lambda>(db, dead). card (all_rows db - set dead))")
     (simp_all add: orphans_decrease)

declare cascade.simps [simp del]

definition remove_rows :: "(string \<times> val row) list \<Rightarrow> database \<Rightarrow> database" where
  "remove_rows dead db =
     map (\<lambda>(n, t). (n, t\<lparr>contents := filter (\<lambda>r. (n, r) \<notin> set dead) (contents t)\<rparr>)) db"

text \<open>
  Deleting the rows \<open>rs\<close> of the table \<open>name\<close>. When foreign keys are enforced the
  cascade goes with them, and a row that is left behind with a deleted parent (a
  foreign key without \<^verbatim>\<open>ON DELETE CASCADE\<close>) fails the statement.
\<close>

definition delete_rows :: "bool \<Rightarrow> string \<Rightarrow> val row list \<Rightarrow> database \<Rightarrow> violation + database" where
  "delete_rows fk name rs db =
     (if fk then
        (let dead = cascade db (map (Pair name) rs)
         in if orphans NoAction db dead \<noteq> [] then Inl ForeignKey
            else Inr (remove_rows dead db))
      else Inr (remove_rows (map (Pair name) rs) db))"

definition matching :: "table \<Rightarrow> string \<Rightarrow> val \<Rightarrow> val row list" where
  "matching t c v = filter (\<lambda>r. v \<noteq> Null \<and> lookup r c = v) (contents t)"

definition delete_where :: "bool \<Rightarrow> string \<Rightarrow> string \<Rightarrow> val list \<Rightarrow> database \<Rightarrow> outcome" where
  "delete_where fk name c vals db =
     (case map_of db name of
        None \<Rightarrow> raise_sqlite (OperationalError ''no such table'') db
      | Some t \<Rightarrow>
          if c \<notin> set (column_names (decl t)) then
            raise_sqlite (OperationalError ''no such column'') db
          else
            (case vals of
               [v] \<Rightarrow>
                 (case delete_rows fk name (matching t c v) db of
                    Inl x \<Rightarrow> raise_sqlite (IntegrityError x) db
                  | Inr db' \<Rightarrow> (Inr (changed (int (length (matching t c v)))), db'))
             | _ \<Rightarrow>
                 raise_sqlite (ProgrammingError ''Incorrect number of bindings supplied'') db))"

subsection \<open>Creating and dropping tables, reading the catalogue\<close>

text \<open>Names that begin with \<^verbatim>\<open>sqlite_\<close>, in any case, are reserved for the engine.\<close>

definition reserved :: "string \<Rightarrow> bool" where
  "reserved name = (map lower (take 7 name) = ''sqlite_'')"

definition create_table :: "bool \<Rightarrow> string \<Rightarrow> table_decl \<Rightarrow> val list \<Rightarrow> database \<Rightarrow> outcome" where
  "create_table if_not_exists name d vals db =
     (if map_of db name \<noteq> None then
        (if if_not_exists then
           (if vals = [] then (Inr no_cursor, db)
            else raise_sqlite (ProgrammingError ''Incorrect number of bindings supplied'') db)
         else raise_sqlite (OperationalError ''table already exists'') db)
      else if reserved name then
        raise_sqlite (OperationalError ''object name reserved for internal use'') db
      else if vals \<noteq> [] then
        raise_sqlite (ProgrammingError ''Incorrect number of bindings supplied'') db
      else (Inr no_cursor, db @ [(name, \<lparr>decl = d, contents = []\<rparr>)]))"

text \<open>With foreign keys enforced, \<^verbatim>\<open>DROP TABLE\<close> first deletes the rows of the table,
  with the actions and the checks of a \<^verbatim>\<open>DELETE\<close>.\<close>

definition drop_table :: "bool \<Rightarrow> bool \<Rightarrow> string \<Rightarrow> val list \<Rightarrow> database \<Rightarrow> outcome" where
  "drop_table fk if_exists name vals db =
     (case map_of db name of
        None \<Rightarrow>
          if \<not> if_exists then raise_sqlite (OperationalError ''no such table'') db
          else if vals \<noteq> [] then
            raise_sqlite (ProgrammingError ''Incorrect number of bindings supplied'') db
          else (Inr no_cursor, db)
      | Some t \<Rightarrow>
          if vals \<noteq> [] then
            raise_sqlite (ProgrammingError ''Incorrect number of bindings supplied'') db
          else
            (case delete_rows fk name (contents t) db of
               Inl x \<Rightarrow> raise_sqlite (IntegrityError x) db
             | Inr db' \<Rightarrow> (Inr no_cursor, filter (\<lambda>(n, t). n \<noteq> name) db')))"

definition select_rows :: "string \<Rightarrow> (string \<times> val) option \<Rightarrow> database \<Rightarrow> outcome" where
  "select_rows name cond db =
     (case map_of db name of
        None \<Rightarrow> raise_sqlite (OperationalError ''no such table'') db
      | Some t \<Rightarrow>
          (case cond of
             None \<Rightarrow> (Inr (selected (contents t)), db)
           | Some (c, v) \<Rightarrow>
               if c \<notin> set (column_names (decl t)) then
                 raise_sqlite (OperationalError ''no such column'') db
               else (Inr (selected (matching t c v)), db)))"

text \<open>The catalogue \<^verbatim>\<open>sqlite_master\<close> has one row of type \<^verbatim>\<open>table\<close> for each table.
  \<^verbatim>\<open>ORDER BY name\<close> compares the bytes of the names.\<close>

definition name_row :: "string \<Rightarrow> val row" where
  "name_row n = [(''name'', Text n)]"

definition select_table_names :: "database \<Rightarrow> outcome" where
  "select_table_names db =
     (Inr (selected (map name_row
             (sort (filter (\<lambda>n. \<not> like ''sqlite_%'' n) (map fst db))))), db)"

definition select_table_named :: "val \<Rightarrow> database \<Rightarrow> outcome" where
  "select_table_named v db =
     (Inr (selected (map name_row (filter (\<lambda>n. Text n = v) (map fst db)))), db)"

text \<open>The engine. A statement is prepared first (a text that is no SQL, a missing
  table or column fail here), then its values are bound, then it runs.\<close>

fun sqlite :: "(statement, val, sqlite_error, database) engine" where
  "sqlite fk (CreateTable ine name d) vals db = create_table ine name d vals db"
| "sqlite fk (DropTable ie name) vals db = drop_table fk ie name vals db"
| "sqlite fk (InsertInto cf name cols) vals db = insert_row fk cf name cols vals db"
| "sqlite fk (DeleteWhere name c) vals db = delete_where fk name c vals db"
| "sqlite fk (SelectAll name) vals db =
     (if map_of db name \<noteq> None \<and> vals \<noteq> [] then
        raise_sqlite (ProgrammingError ''Incorrect number of bindings supplied'') db
      else select_rows name None db)"
| "sqlite fk (SelectWhere name c) vals db =
     (case vals of
        [v] \<Rightarrow> select_rows name (Some (c, v)) db
      | _ \<Rightarrow>
          (case select_rows name (Some (c, Null)) db of
             (Inl e, db') \<Rightarrow> (Inl e, db')
           | (Inr _, db') \<Rightarrow>
               raise_sqlite (ProgrammingError ''Incorrect number of bindings supplied'') db'))"
| "sqlite fk SelectTableNames vals db =
     (if vals \<noteq> [] then
        raise_sqlite (ProgrammingError ''Incorrect number of bindings supplied'') db
      else select_table_names db)"
| "sqlite fk SelectTableNamed vals db =
     (case vals of
        [v] \<Rightarrow> select_table_named v db
      | _ \<Rightarrow> raise_sqlite (ProgrammingError ''Incorrect number of bindings supplied'') db)"
| "sqlite fk (NotSQL text) vals db = raise_sqlite (OperationalError ''syntax error'') db"

section \<open>The schema manager: models/schema.py\<close>

text \<open>The schema manager works through a \<^verbatim>\<open>DatabaseManager\<close> on SQLite.\<close>

type_synonym db_manager = "(statement, database) manager"

type_synonym 'a result = "(sqlite_error py_exception + 'a) \<times> db_manager"

text \<open>Statements in sequence: an exception ends the method where it is raised.\<close>

definition and_then :: "('e + 'a) \<times> 's \<Rightarrow> ('s \<Rightarrow> ('e + 'b) \<times> 's) \<Rightarrow> ('e + 'b) \<times> 's" where
  "and_then r f = (case r of (Inl e, s) \<Rightarrow> (Inl e, s) | (Inr _, s) \<Rightarrow> f s)"

fun for_each :: "'a list \<Rightarrow> ('a \<Rightarrow> 's \<Rightarrow> ('e + 'b) \<times> 's) \<Rightarrow> 's \<Rightarrow> ('e + unit) \<times> 's" where
  "for_each [] body s = (Inr (), s)"
| "for_each (x # xs) body s = and_then (body x s) (for_each xs body)"

text \<open>The five table declarations, from the SQL text of \<^verbatim>\<open>create_tables\<close>.\<close>

definition column :: "string \<Rightarrow> affinity \<Rightarrow> bool \<Rightarrow> val \<Rightarrow> column_decl" where
  "column n ty nn dv = \<lparr>col_name = n, col_type = ty, not_null = nn, default_value = dv\<rparr>"

definition references :: "string \<Rightarrow> string \<Rightarrow> string \<Rightarrow> fk_action \<Rightarrow> foreign_key" where
  "references c p pc a = \<lparr>fk_column = c, parent_table = p, parent_column = pc, on_delete = a\<rparr>"

definition divisions_decl :: table_decl where
  "divisions_decl =
     \<lparr>columns = [column ''id'' INTEGER False Null,
                 column ''name'' TEXT True Null],
      primary_key = ''id'',
      unique_keys = [[''name'']],
      foreign_key_decls = [],
      checks = []\<rparr>"

definition teams_decl :: table_decl where
  "teams_decl =
     \<lparr>columns = [column ''id'' INTEGER False Null,
                 column ''name'' TEXT True Null,
                 column ''division_id'' INTEGER True Null],
      primary_key = ''id'',
      unique_keys = [],
      foreign_key_decls = [references ''division_id'' ''divisions'' ''id'' Cascade],
      checks = []\<rparr>"

definition players_decl :: table_decl where
  "players_decl =
     \<lparr>columns = [column ''id'' INTEGER False Null,
                 column ''name'' TEXT True Null,
                 column ''position'' TEXT True Null,
                 column ''team_id'' INTEGER True Null],
      primary_key = ''id'',
      unique_keys = [],
      foreign_key_decls = [references ''team_id'' ''teams'' ''id'' Cascade],
      checks = []\<rparr>"

definition matches_decl :: table_decl where
  "matches_decl =
     \<lparr>columns = [column ''id'' INTEGER False Null,
                 column ''date'' TEXT True Null,
                 column ''division_id'' INTEGER True Null,
                 column ''team1_id'' INTEGER True Null,
                 column ''team2_id'' INTEGER True Null,
                 column ''team1_score'' INTEGER False (Integer 0),
                 column ''team2_score'' INTEGER False (Integer 0)],
      primary_key = ''id'',
      unique_keys = [],
      foreign_key_decls = [references ''division_id'' ''divisions'' ''id'' Cascade,
                           references ''team1_id'' ''teams'' ''id'' Cascade,
                           references ''team2_id'' ''teams'' ''id'' Cascade],
      checks = [Differ ''team1_id'' ''team2_id'']\<rparr>"

definition player_stats_decl :: table_decl where
  "player_stats_decl =
     \<lparr>columns = [column ''id'' INTEGER False Null,
                 column ''player_id'' INTEGER True Null,
                 column ''match_id'' INTEGER True Null,
                 column ''attempts'' INTEGER False (Integer 0),
                 column ''goals'' INTEGER False (Integer 0),
                 column ''center_passes'' INTEGER False (Integer 0),
                 column ''tips'' INTEGER False (Integer 0),
                 column ''rebounds'' INTEGER False (Integer 0),
                 column ''interceptions'' INTEGER False (Integer 0),
                 column ''turnovers'' INTEGER False (Integer 0)],
      primary_key = ''id'',
      unique_keys = [[''player_id'', ''match_id'']],
      foreign_key_decls = [references ''player_id'' ''players'' ''id'' Cascade,
                           references ''match_id'' ''matches'' ''id'' Cascade],
      checks = []\<rparr>"

definition create_tables :: "db_manager \<Rightarrow> unit result" where
  "create_tables m =
     and_then (execute_query sqlite m (CreateTable True ''divisions'' divisions_decl) None) (\<lambda>m.
     and_then (execute_query sqlite m (CreateTable True ''teams'' teams_decl) None) (\<lambda>m.
     and_then (execute_query sqlite m (CreateTable True ''players'' players_decl) None) (\<lambda>m.
     and_then (execute_query sqlite m (CreateTable True ''matches'' matches_decl) None) (\<lambda>m.
     and_then (execute_query sqlite m (CreateTable True ''player_stats'' player_stats_decl) None)
       (\<lambda>m. (Inr (), m))))))"


text \<open>\<^verbatim>\<open>table['name']\<close>: a \<^verbatim>\<open>sqlite3.Row\<close> is read by column name; a plain tuple
  cannot be.\<close>

definition subscript :: "val py_row \<Rightarrow> string \<Rightarrow> sqlite_error py_exception + val" where
  "subscript r key =
     (case r of
        Row named \<Rightarrow>
          (case map_of named key of
             Some v \<Rightarrow> Inr v
           | None \<Rightarrow> Inl (OtherException ''IndexError''))
      | Tuple vs \<Rightarrow> Inl (OtherException ''TypeError''))"

fun collect :: "('e + 'a) list \<Rightarrow> 'e + 'a list" where
  "collect [] = Inr []"
| "collect (Inl e # xs) = Inl e"
| "collect (Inr x # xs) = (case collect xs of Inl e \<Rightarrow> Inl e | Inr ys \<Rightarrow> Inr (x # ys))"

definition get_table_names :: "db_manager \<Rightarrow> val list result" where
  "get_table_names m =
     (case fetch_all sqlite m SelectTableNames None of
        (Inl e, m1) \<Rightarrow> (Inl e, m1)
      | (Inr tables, m1) \<Rightarrow> (collect (map (\<lambda>table. subscript table ''name'') tables), m1))"

definition table_exists :: "db_manager \<Rightarrow> string \<Rightarrow> bool result" where
  "table_exists m table_name =
     (case fetch_one sqlite m SelectTableNamed (Some [Text table_name]) of
        (Inl e, m1) \<Rightarrow> (Inl e, m1)
      | (Inr result, m1) \<Rightarrow> (Inr (result \<noteq> None), m1))"

text \<open>The sample data of \<^verbatim>\<open>insert_sample_data\<close>.\<close>

definition divisions :: "(int \<times> string) list" where
  "divisions = [(1, ''Premier Division''), (2, ''Division 1''), (3, ''Division 2'')]"

definition teams :: "(int \<times> string \<times> int) list" where
  "teams = [(1, ''Red Dragons'', 1), (2, ''Blue Eagles'', 1),
            (3, ''Green Lions'', 2), (4, ''Yellow Tigers'', 2)]"

definition players :: "(int \<times> string \<times> string \<times> int) list" where
  "players = [(1, ''Alice Johnson'', ''Goal Shooter'', 1),
              (2, ''Bob Smith'', ''Goal Attack'', 1),
              (3, ''Charlie Brown'', ''Wing Attack'', 2),
              (4, ''Diana Prince'', ''Center'', 2),
              (5, ''Eve Wilson'', ''Goal Keeper'', 3),
              (6, ''Frank Miller'', ''Goal Defense'', 3)]"

definition matches :: "(int \<times> string \<times> int \<times> int \<times> int \<times> int \<times> int) list" where
  "matches = [(1, ''2024-01-15'', 1, 1, 2, 45, 42),
              (2, ''2024-01-22'', 2, 3, 4, 38, 35)]"

definition player_stats ::
  "(int \<times> int \<times> int \<times> int \<times> int \<times> int \<times> int \<times> int \<times> int \<times> int) list" where
  "player_stats = [(1, 1, 1, 15, 12, 0, 0, 0, 0, 2),
                   (2, 2, 1, 10, 8, 0, 0, 0, 0, 1),
                   (3, 3, 1, 8, 6, 0, 0, 0, 0, 3),
                   (4, 4, 1, 12, 10, 0, 0, 0, 0, 1),
                   (5, 5, 2, 14, 11, 0, 0, 0, 0, 2),
                   (6, 6, 2, 9, 7, 0, 0, 0, 0, 1)]"

definition insert_division :: "int \<times> string \<Rightarrow> db_manager \<Rightarrow> int result" where
  "insert_division = (\<lambda>(div_id, name) m.
     execute_query sqlite m (InsertInto Ignore ''divisions'' [''id'', ''name''])
       (Some [Integer div_id, Text name]))"

definition insert_team :: "int \<times> string \<times> int \<Rightarrow> db_manager \<Rightarrow> int result" where
  "insert_team = (\<lambda>(team_id, name, div_id) m.
     execute_query sqlite m (InsertInto Ignore ''teams'' [''id'', ''name'', ''division_id''])
       (Some [Integer team_id, Text name, Integer div_id]))"

definition insert_player :: "int \<times> string \<times> string \<times> int \<Rightarrow> db_manager \<Rightarrow> int result" where
  "insert_player = (\<lambda>(player_id, name, position, team_id) m.
     execute_query sqlite m
       (InsertInto Ignore ''players'' [''id'', ''name'', ''position'', ''team_id''])
       (Some [Integer player_id, Text name, Text position, Integer team_id]))"

definition insert_match ::
  "int \<times> string \<times> int \<times> int \<times> int \<times> int \<times> int \<Rightarrow> db_manager \<Rightarrow> int result" where
  "insert_match = (\<lambda>(match_id, date, div_id, team1_id, team2_id, score1, score2) m.
     execute_query sqlite m
       (InsertInto Ignore ''matches''
          [''id'', ''date'', ''division_id'', ''team1_id'', ''team2_id'',
           ''team1_score'', ''team2_score''])
       (Some [Integer match_id, Text date, Integer div_id, Integer team1_id,
              Integer team2_id, Integer score1, Integer score2]))"

definition insert_player_stat ::
  "int \<times> int \<times> int \<times> int \<times> int \<times> int \<times> int \<times> int \<times> int \<times> int \<Rightarrow> db_manager \<Rightarrow> int result" where
  "insert_player_stat =
     (\<lambda>(stat_id, player_id, match_id, attempts, goals, center_passes, tips, rebounds,
        interceptions, turnovers) m.
     execute_query sqlite m
       (InsertInto Ignore ''player_stats''
          [''id'', ''player_id'', ''match_id'', ''attempts'', ''goals'', ''center_passes'',
           ''tips'', ''rebounds'', ''interceptions'', ''turnovers''])
       (Some [Integer stat_id, Integer player_id, Integer match_id, Integer attempts,
              Integer goals, Integer center_passes, Integer tips, Integer rebounds,
              Integer interceptions, Integer turnovers]))"

definition insert_sample_data :: "db_manager \<Rightarrow> unit result" where
  "insert_sample_data m =
     and_then (for_each divisions insert_division m) (\<lambda>m.
     and_then (for_each teams insert_team m) (\<lambda>m.
     and_then (for_each players insert_player m) (\<lambda>m.
     and_then (for_each matches insert_match m) (\<lambda>m.
     for_each player_stats insert_player_stat m))))"

section \<open>Notions used to state the properties\<close>

text \<open>The database the next statement will run on: the view of the open connection,
  or the committed file when a connection has yet to be opened.\<close>

definition seen :: "('q, 'db) manager \<Rightarrow> 'db" where
  "seen m = (case connection m of None \<Rightarrow> db_file m | Some c \<Rightarrow> pending c)"

text \<open>What the engine answers when the manager hands it the statement \<open>q\<close> with
  \<open>params\<close> on its connection (opened first when there is none).\<close>

definition engine_answer ::
  "('q, 'v, 'e, 'db) engine \<Rightarrow> ('q, 'db) manager \<Rightarrow> 'q \<Rightarrow> 'v list option \<Rightarrow>
   ('e py_exception + 'v cursor) \<times> 'db" where
  "engine_answer E m q params =
     (let (c, m1) = connect m in E (foreign_keys c) q (bound_values params) (pending c))"

text \<open>The calls a client can make on a manager, and a run of such calls.\<close>

datatype ('q, 'v) call =
    Connect
  | ExecuteQuery 'q "'v list option"
  | FetchAll 'q "'v list option"
  | FetchOne 'q "'v list option"
  | Close
  | Enter
  | Exit

fun do_call :: "('q, 'v, 'e, 'db) engine \<Rightarrow> ('q, 'db) manager \<Rightarrow> ('q, 'v) call \<Rightarrow> ('q, 'db) manager" where
  "do_call E m Connect = snd (connect m)"
| "do_call E m (ExecuteQuery q params) = snd (execute_query E m q params)"
| "do_call E m (FetchAll q params) = snd (fetch_all E m q params)"
| "do_call E m (FetchOne q params) = snd (fetch_one E m q params)"
| "do_call E m Close = close m"
| "do_call E m Enter = enter m"
| "do_call E m Exit = snd (exit m (None :: unit option))"

definition do_calls :: "('q, 'v, 'e, 'db) engine \<Rightarrow> ('q, 'v) call list \<Rightarrow> ('q, 'db) manager \<Rightarrow> ('q, 'db) manager" where
  "do_calls E cs m = foldl (do_call E) m cs"

text \<open>The connections that are open are exactly the one the manager holds, if any.\<close>

definition one_connection :: "('q, 'db) manager \<Rightarrow> bool" where
  "one_connection m =
     (open_handles m = (case connection m of None \<Rightarrow> [] | Some c \<Rightarrow> [handle c]))"

text \<open>The open connection, if any, delivers rows as \<^verbatim>\<open>sqlite3.Row\<close>.\<close>

definition named_rows :: "('q, 'db) manager \<Rightarrow> bool" where
  "named_rows m =
     (case connection m of None \<Rightarrow> True | Some c \<Rightarrow> row_factory c = RowFactory)"

fun is_named :: "'v py_row \<Rightarrow> bool" where
  "is_named (Row r) = True"
| "is_named (Tuple vs) = False"

text \<open>Whether the next statement runs with foreign keys enforced: the setting of the
  open connection, and \<open>True\<close> when \<^verbatim>\<open>connect\<close> has yet to make one.\<close>

definition enforced :: "('q, 'db) manager \<Rightarrow> bool" where
  "enforced m = (case connection m of None \<Rightarrow> True | Some c \<Rightarrow> foreign_keys c)"

text \<open>What \<^verbatim>\<open>CREATE TABLE IF NOT EXISTS\<close> leaves of a database.\<close>

definition ensure :: "string \<Rightarrow> table_decl \<Rightarrow> database \<Rightarrow> database" where
  "ensure n d db =
     (if map_of db n \<noteq> None then db else db @ [(n, \<lparr>decl = d, contents = []\<rparr>)])"


text \<open>Every foreign key of the database is declared \<^verbatim>\<open>ON DELETE CASCADE\<close>.\<close>

definition no_restrict :: "database \<Rightarrow> bool" where
  "no_restrict db =
     list_all (\<lambda>(n, t). list_all (\<lambda>f. on_delete f = Cascade) (foreign_key_decls (decl t))) db"

text \<open>The database after the five statements of \<^verbatim>\<open>create_tables\<close>.\<close>

definition declared :: "database \<Rightarrow> database" where
  "declared db =
     ensure ''player_stats'' player_stats_decl
       (ensure ''matches'' matches_decl
          (ensure ''players'' players_decl
             (ensure ''teams'' teams_decl
                (ensure ''divisions'' divisions_decl db))))"


text \<open>The database of this schema, with the given rows in its five tables.\<close>

definition netball_db ::
  "val row list \<Rightarrow> val row list \<Rightarrow> val row list \<Rightarrow> val row list \<Rightarrow> val row list \<Rightarrow> database" where
  "netball_db ds ts ps ms ss =
     [(''divisions'', \<lparr>decl = divisions_decl, contents = ds\<rparr>),
      (''teams'', \<lparr>decl = teams_decl, contents = ts\<rparr>),
      (''players'', \<lparr>decl = players_decl, contents = ps\<rparr>),
      (''matches'', \<lparr>decl = matches_decl, contents = ms\<rparr>),
      (''player_stats'', \<lparr>decl = player_stats_decl, contents = ss\<rparr>)]"

text \<open>A manager on a new, empty file after \<^verbatim>\<open>create_tables\<close>.\<close>

definition fresh_schema :: db_manager where
  "fresh_schema = snd (create_tables (init ''netball_stats.db'' []))"

text \<open>A table of the user's whose name begins with \<^verbatim>\<open>sqlite\<close> but not with
  \<^verbatim>\<open>sqlite_\<close>, created through \<^verbatim>\<open>execute_query\<close>.\<close>

definition id_only :: table_decl where
  "id_only = \<lparr>columns = [column ''id'' INTEGER False Null], primary_key = ''id'',
               unique_keys = [], foreign_key_decls = [], checks = []\<rparr>"

definition with_sqlitex :: db_manager where
  "with_sqlitex =
     snd (execute_query sqlite fresh_schema (CreateTable False ''sqlitex'' id_only) None)"

text \<open>A list of statements run one after the other through \<open>execute_query\<close>, seen
  from the database: \<open>run_all fk qs s f\<close> starts with the connection seeing \<open>s\<close> and
  the file holding \<open>f\<close>, and yields the result, what the connection sees and what the
  file holds at the end.\<close>

fun run_all ::
  "bool \<Rightarrow> (statement \<times> val list option) list \<Rightarrow> database \<Rightarrow> database \<Rightarrow>
   (sqlite_error py_exception + unit) \<times> database \<times> database" where
  "run_all fk [] s f = (Inr (), s, f)"
| "run_all fk ((q, ps) # rest) s f =
     (case sqlite fk q (bound_values ps) s of
        (Inr cur, s') \<Rightarrow> run_all fk rest s' s'
      | (Inl e, s') \<Rightarrow> (Inl e, f, f))"

text \<open>What a call shows of the database: its result, what the connection sees
  afterwards and what the file holds afterwards.\<close>

definition view :: "'a result \<Rightarrow> (sqlite_error py_exception + 'a) \<times> database \<times> database" where
  "view r = (fst r, seen (snd r), db_file (snd r))"

text \<open>The values that the loops of \<^verbatim>\<open>insert_sample_data\<close> bind for one entry of the
  sample data, the statements of the method in the order it runs them, and the database
  that holds exactly the sample data.\<close>

definition division_values :: "int \<times> string \<Rightarrow> val list option" where
  "division_values = (\<lambda>(div_id, name). Some [Integer div_id, Text name])"

definition team_values :: "int \<times> string \<times> int \<Rightarrow> val list option" where
  "team_values = (\<lambda>(team_id, name, div_id). Some [Integer team_id, Text name, Integer div_id])"

definition player_values :: "int \<times> string \<times> string \<times> int \<Rightarrow> val list option" where
  "player_values = (\<lambda>(player_id, name, position, team_id).
     Some [Integer player_id, Text name, Text position, Integer team_id])"

definition match_values ::
  "int \<times> string \<times> int \<times> int \<times> int \<times> int \<times> int \<Rightarrow> val list option" where
  "match_values = (\<lambda>(match_id, date, div_id, team1_id, team2_id, score1, score2).
     Some [Integer match_id, Text date, Integer div_id, Integer team1_id,
           Integer team2_id, Integer score1, Integer score2])"

definition player_stat_values ::
  "int \<times> int \<times> int \<times> int \<times> int \<times> int \<times> int \<times> int \<times> int \<times> int \<Rightarrow> val list option" where
  "player_stat_values =
     (\<lambda>(stat_id, player_id, match_id, attempts, goals, center_passes, tips, rebounds,
        interceptions, turnovers).
     Some [Integer stat_id, Integer player_id, Integer match_id, Integer attempts,
           Integer goals, Integer center_passes, Integer tips, Integer rebounds,
           Integer interceptions, Integer turnovers])"

definition sample_inserts :: "(statement \<times> val list option) list" where
  "sample_inserts =
     map (\<lambda>x. (InsertInto Ignore ''divisions'' [''id'', ''name''], division_values x))
       divisions
     @ map (\<lambda>x. (InsertInto Ignore ''teams'' [''id'', ''name'', ''division_id''],
                  team_values x)) teams
     @ map (\<lambda>x. (InsertInto Ignore ''players'' [''id'', ''name'', ''position'', ''team_id''],
                  player_values x)) players
     @ map (\<lambda>x. (InsertInto Ignore ''matches''
                    [''id'', ''date'', ''division_id'', ''team1_id'', ''team2_id'',
                     ''team1_score'', ''team2_score''],
                  match_values x)) matches
     @ map (\<lambda>x. (InsertInto Ignore ''player_stats''
                    [''id'', ''player_id'', ''match_id'', ''attempts'', ''goals'',
                     ''center_passes'', ''tips'', ''rebounds'', ''interceptions'',
                     ''turnovers''],
                  player_stat_values x)) player_stats"

definition sample_division_rows :: "val row list" where
  "sample_division_rows =
     map (\<lambda>(i, n). [(''id'', Integer i), (''name'', Text n)]) divisions"

definition sample_team_rows :: "val row list" where
  "sample_team_rows =
     map (\<lambda>(i, n, d). [(''id'', Integer i), (''name'', Text n), (''division_id'', Integer d)])
       teams"

definition sample_player_rows :: "val row list" where
  "sample_player_rows =
     map (\<lambda>(i, n, p, t). [(''id'', Integer i), (''name'', Text n), (''position'', Text p),
                            (''team_id'', Integer t)]) players"

definition sample_match_rows :: "val row list" where
  "sample_match_rows =
     map (\<lambda>(i, d, dv, t1, t2, s1, s2).
            [(''id'', Integer i), (''date'', Text d), (''division_id'', Integer dv),
             (''team1_id'', Integer t1), (''team2_id'', Integer t2),
             (''team1_score'', Integer s1), (''team2_score'', Integer s2)]) matches"

definition sample_player_stat_rows :: "val row list" where
  "sample_player_stat_rows =
     map (\<lambda>(i, p, m, a, g, c, t, r, ic, tu).
            [(''id'', Integer i), (''player_id'', Integer p), (''match_id'', Integer m),
             (''attempts'', Integer a), (''goals'', Integer g),
             (''center_passes'', Integer c), (''tips'', Integer t),
             (''rebounds'', Integer r), (''interceptions'', Integer ic),
             (''turnovers'', Integer tu)]) player_stats"

definition sample_db :: database where
  "sample_db =
     netball_db sample_division_rows sample_team_rows sample_player_rows sample_match_rows
       sample_player_stat_rows"

text \<open>\<open>grows db db2\<close>: \<open>db2\<close> has the tables of \<open>db\<close>, with the same declarations,
  and every row of \<open>db\<close> is still there.\<close>

definition grows :: "database \<Rightarrow> database \<Rightarrow> bool" where
  "grows db db2 =
     list_all2 (\<lambda>(n, t) (n2, t2). n = n2 \<and> decl t = decl t2
                  \<and> set (contents t) \<subseteq> set (contents t2)) db db2"

text \<open>An \<^verbatim>\<open>INSERT OR IGNORE\<close> that names the primary key of its table and gives it
  an integer.\<close>

fun keyed :: "database \<Rightarrow> statement \<times> val list option \<Rightarrow> bool" where
  "keyed db (InsertInto Ignore t cols, ps) =
     (case map_of db t of
        None \<Rightarrow> True
      | Some tb \<Rightarrow>
          primary_key (decl tb) \<in> set (column_names (decl tb)) \<and>
          (case map_of (zip cols (bound_values ps)) (primary_key (decl tb)) of
             Some (Integer i) \<Rightarrow> True
           | _ \<Rightarrow> False))"
| "keyed db _ = False"

text \<open>The statements of the form \<^verbatim>\<open>INSERT OR IGNORE\<close>.\<close>

fun insert_or_ignore :: "statement \<Rightarrow> bool" where
  "insert_or_ignore (InsertInto Ignore t cols) = True"
| "insert_or_ignore _ = False"

text \<open>The ownership of the claim, in its words. \<open>child_of c parents r\<close>: the row \<open>r\<close>
  references, through its column \<open>c\<close>, the id of one of the rows \<open>parents\<close>.\<close>

definition child_of :: "string \<Rightarrow> val row list \<Rightarrow> val row \<Rightarrow> bool" where
  "child_of c parents r =
     (lookup r c \<noteq> Null \<and> lookup r c \<in> (\<lambda>p. lookup p ''id'') ` set parents)"

definition division_rows :: "int \<Rightarrow> val row list \<Rightarrow> val row list" where
  "division_rows d ds = filter (\<lambda>r. lookup r ''id'' = Integer d) ds"

definition teams_of :: "val row list \<Rightarrow> val row list \<Rightarrow> val row list" where
  "teams_of D ts = filter (child_of ''division_id'' D) ts"

definition players_of :: "val row list \<Rightarrow> val row list \<Rightarrow> val row list" where
  "players_of T ps = filter (child_of ''team_id'' T) ps"

definition matches_of :: "val row list \<Rightarrow> val row list \<Rightarrow> val row list \<Rightarrow> val row list" where
  "matches_of D T ms =
     filter (\<lambda>r. child_of ''division_id'' D r \<or> child_of ''team1_id'' T r
                 \<or> child_of ''team2_id'' T r) ms"

definition stats_of :: "val row list \<Rightarrow> val row list \<Rightarrow> val row list \<Rightarrow> val row list" where
  "stats_of P M ss = filter (\<lambda>r. child_of ''player_id'' P r \<or> child_of ''match_id'' M r) ss"

definition without :: "val row list \<Rightarrow> val row list \<Rightarrow> val row list" where
  "without gone rows = filter (\<lambda>r. r \<notin> set gone) rows"

text \<open>The rows that go when the division \<open>d\<close> is deleted, as the claim lists them.\<close>

definition owned ::
  "int \<Rightarrow> val row list \<Rightarrow> val row list \<Rightarrow> val row list \<Rightarrow> val row list \<Rightarrow> val row list \<Rightarrow>
   (string \<times> val row) set" where
  "owned d ds ts ps ms ss =
     (let D = division_rows d ds; T = teams_of D ts; P = players_of T ps;
          M = matches_of D T ms; S = stats_of P M ss
      in Pair ''divisions'' ` set D \<union> Pair ''teams'' ` set T \<union> Pair ''players'' ` set P
         \<union> Pair ''matches'' ` set M \<union> Pair ''player_stats'' ` set S)"

text \<open>\<open>refers_to c p r X\<close>: the row \<open>r\<close> references, through its column \<open>c\<close>, the id
  of a row of the table \<open>p\<close> that is in \<open>X\<close>.\<close>

definition refers_to :: "string \<Rightarrow> string \<Rightarrow> val row \<Rightarrow> (string \<times> val row) set \<Rightarrow> bool" where
  "refers_to c p r X =
     (lookup r c \<noteq> Null \<and> (\<exists>pr. (p, pr) \<in> X \<and> lookup pr ''id'' = lookup r c))"

text \<open>The database of this schema after the division \<open>d\<close> and all it owns are gone;
  every other row stays as it is, in its place.\<close>

definition after_delete ::
  "int \<Rightarrow> val row list \<Rightarrow> val row list \<Rightarrow> val row list \<Rightarrow> val row list \<Rightarrow> val row list \<Rightarrow>
   database" where
  "after_delete d ds ts ps ms ss =
     (let D = division_rows d ds; T = teams_of D ts; P = players_of T ps;
          M = matches_of D T ms; S = stats_of P M ss
      in netball_db (without D ds) (without T ts) (without P ps) (without M ms)
           (without S ss))"


definition stored :: "string \<Rightarrow> val row \<Rightarrow> database \<Rightarrow> database" where
  "stored t r db = modify_table t (\<lambda>tb. tb\<lparr>contents := contents tb @ [r]\<rparr>) db"


text \<open>A database file with one division in it, and a new manager on that file.\<close>

definition one_division :: database where
  "one_division =
     [(''divisions'',
       \<lparr>decl = divisions_decl,
        contents = [[(''id'', Integer 1), (''name'', Text ''Premier Division'')]]\<rparr>)]"

definition new_manager :: db_manager where
  "new_manager = init ''netball_stats.db'' one_division"

section \<open>Properties of the data-access layer\<close>

lemma run_statement_empty:
  "run_statement E c q (Some []) m = run_statement E c q None m"
  by (simp add: run_statement_def)

lemma run_statement_eq:
  "run_statement E c q params m = cursor_execute E c q (bound_values params) m"
  by (cases params) (simp_all add: run_statement_def)

lemma execute_query_unfold:
  assumes "connect m = (c, m1)" and "E (foreign_keys c) q (bound_values params) (pending c) = (r, db')"
  shows "execute_query E m q params =
     (case r of
        Inr cur \<Rightarrow> (Inr (rowcount cur),
                    m1\<lparr>connection := Some (c\<lparr>pending := db'\<rparr>), issued := issued m1 @ [q], db_file := db'\<rparr>)
      | Inl (SqliteError e) \<Rightarrow> (Inl (SqliteError e),
                    m1\<lparr>connection := Some (c\<lparr>pending := db_file m1\<rparr>), issued := issued m1 @ [q]\<rparr>)
      | Inl (OtherException x) \<Rightarrow> (Inl (OtherException x),
                    m1\<lparr>connection := Some (c\<lparr>pending := db'\<rparr>), issued := issued m1 @ [q]\<rparr>))"
  using assms
  by (simp add: execute_query_def run_statement_eq cursor_execute_def conn_commit_def Let_def
      conn_rollback_def split: sum.splits py_exception.splits)

lemma connect_facts:
  assumes "connect m = (c, m1)"
  shows "db_file m1 = db_file m" "issued m1 = issued m" "connection m1 = Some c" "pending c = seen m"
  using assms
  by (auto simp: connect_def sqlite3_connect_def seen_def Let_def split: option.splits)

lemma connect_view:
  assumes "connect m = (c, m1)"
  shows "foreign_keys c = enforced m" "pending c = seen m"
    "enforced m1 = enforced m" "seen m1 = seen m"
  using assms
  by (auto simp: connect_def sqlite3_connect_def seen_def enforced_def Let_def
      split: option.splits)

text \<open>
  Claim C1. For every engine, manager, statement and parameters: when the engine
  answers with a cursor, \<^verbatim>\<open>execute_query\<close> returns its row count and the file holds what
  the statement left (commit); when the engine raises an error of \<^verbatim>\<open>sqlite3.Error\<close>,
  \<^verbatim>\<open>execute_query\<close> raises that same error, the file is as it was and the connection
  sees the file again (rollback). The statement is handed to the engine once.
\<close>

theorem execute_query_commit_or_rollback:
  "(\<forall>cur. fst (engine_answer E m q params) = Inr cur \<longrightarrow>
       fst (execute_query E m q params) = Inr (rowcount cur)
     \<and> db_file (snd (execute_query E m q params)) = snd (engine_answer E m q params)
     \<and> seen (snd (execute_query E m q params)) = snd (engine_answer E m q params))
   \<and> (\<forall>e. fst (engine_answer E m q params) = Inl (SqliteError e) \<longrightarrow>
       fst (execute_query E m q params) = Inl (SqliteError e)
     \<and> db_file (snd (execute_query E m q params)) = db_file m
     \<and> seen (snd (execute_query E m q params)) = db_file m)
   \<and> issued (snd (execute_query E m q params)) = issued m @ [q]"
proof -
  obtain c m1 where c: "connect m = (c, m1)" by (cases "connect m")
  obtain r db' where r: "E (foreign_keys c) q (bound_values params) (pending c) = (r, db')"
    by (cases "E (foreign_keys c) q (bound_values params) (pending c)")
  have a: "engine_answer E m q params = (r, db')"
    by (simp add: engine_answer_def c r)
  show ?thesis
    unfolding a execute_query_unfold [where E = E, OF c r]
    using connect_facts [OF c]
    by (auto simp: seen_def split: sum.splits py_exception.splits)
qed


lemma new_manager_file: "db_file new_manager = one_division"
  by (simp add: new_manager_def init_def)

lemma duplicate_name_answer:
  "engine_answer sqlite new_manager (InsertInto Abort ''divisions'' [''id'', ''name''])
        (Some [Integer 2, Text ''Premier Division''])
      = (Inl (SqliteError (IntegrityError Unique)), one_division)"
  by code_simp

lemma other_name_answer:
  "engine_answer sqlite new_manager (InsertInto Abort ''divisions'' [''id'', ''name''])
        (Some [Integer 2, Text ''Division 1''])
      = (Inr \<lparr>fetched = [], rowcount = 1\<rparr>,
         [(''divisions'',
           \<lparr>decl = divisions_decl,
            contents = [[(''id'', Integer 1), (''name'', Text ''Premier Division'')],
                        [(''id'', Integer 2), (''name'', Text ''Division 1'')]]\<rparr>)])"
  by code_simp

theorem execute_query_commit_or_rollback_witness:
  "fst (execute_query sqlite new_manager (InsertInto Abort ''divisions'' [''id'', ''name''])
          (Some [Integer 2, Text ''Premier Division'']))
     = Inl (SqliteError (IntegrityError Unique))
   \<and> db_file (snd (execute_query sqlite new_manager
          (InsertInto Abort ''divisions'' [''id'', ''name''])
          (Some [Integer 2, Text ''Premier Division'']))) = one_division
   \<and> fst (execute_query sqlite new_manager (InsertInto Abort ''divisions'' [''id'', ''name''])
          (Some [Integer 2, Text ''Division 1''])) = Inr 1
   \<and> db_file (snd (execute_query sqlite new_manager
          (InsertInto Abort ''divisions'' [''id'', ''name''])
          (Some [Integer 2, Text ''Division 1''])))
     = [(''divisions'',
           \<lparr>decl = divisions_decl,
            contents = [[(''id'', Integer 1), (''name'', Text ''Premier Division'')],
                        [(''id'', Integer 2), (''name'', Text ''Division 1'')]]\<rparr>)]"
  using execute_query_commit_or_rollback [of sqlite new_manager
      "InsertInto Abort ''divisions'' [''id'', ''name'']"
      "Some [Integer 2, Text ''Premier Division'']"]
    execute_query_commit_or_rollback [of sqlite new_manager
      "InsertInto Abort ''divisions'' [''id'', ''name'']"
      "Some [Integer 2, Text ''Division 1'']"]
  by (simp add: duplicate_name_answer other_name_answer new_manager_file)

lemma fetch_all_unfold:
  assumes "connect m = (c, m1)" and "E (foreign_keys c) q (bound_values params) (pending c) = (r, db')"
  shows "fetch_all E m q params =
     (map_sum id (\<lambda>cur. map (deliver (row_factory c)) (fetched cur)) r,
      m1\<lparr>connection := Some (c\<lparr>pending := db'\<rparr>), issued := issued m1 @ [q]\<rparr>)"
  using assms
  by (simp add: fetch_all_def run_statement_eq cursor_execute_def Let_def split: sum.splits)

lemma fetch_one_unfold:
  assumes "connect m = (c, m1)" and "E (foreign_keys c) q (bound_values params) (pending c) = (r, db')"
  shows "fetch_one E m q params =
     (map_sum id (\<lambda>cur. case fetched cur of [] \<Rightarrow> None
                         | x # _ \<Rightarrow> Some (deliver (row_factory c) x)) r,
      m1\<lparr>connection := Some (c\<lparr>pending := db'\<rparr>), issued := issued m1 @ [q]\<rparr>)"
  using assms
  by (simp add: fetch_one_def run_statement_eq cursor_execute_def Let_def split: sum.splits list.splits)

text \<open>
  Claim C9. For \<^verbatim>\<open>execute_query\<close>, \<^verbatim>\<open>fetch_all\<close> and \<^verbatim>\<open>fetch_one\<close>, an empty
  parameter sequence gives the same result and the same state as no parameters at all,
  for every engine, statement and manager: in both cases the \<^verbatim>\<open>if params\<close> takes the
  branch that executes the statement with no bound values. The statement is handed to
  the engine once, with the empty list of values, on the database and with the
  foreign-key setting of the manager's connection, and the method returns what the
  engine answered to that.
\<close>

theorem empty_params_same_as_none:
  "execute_query E m q (Some []) = execute_query E m q None
   \<and> fetch_all E m q (Some []) = fetch_all E m q None
   \<and> fetch_one E m q (Some []) = fetch_one E m q None
   \<and> run_statement E c q (Some []) m = cursor_execute E c q [] m
   \<and> run_statement E c q None m = cursor_execute E c q [] m
   \<and> fst (cursor_execute E c q [] m) = fst (E (foreign_keys c) q [] (pending c))
   \<and> fst (execute_query E m q (Some []))
       = map_sum id rowcount (fst (E (enforced m) q [] (seen m)))
   \<and> fst (fetch_all E m q (Some []))
       = map_sum id (\<lambda>cur. map (deliver (row_factory (fst (connect m)))) (fetched cur))
           (fst (E (enforced m) q [] (seen m)))
   \<and> fst (fetch_one E m q (Some []))
       = map_sum id (\<lambda>cur. case fetched cur of [] \<Rightarrow> None
                           | x # _ \<Rightarrow> Some (deliver (row_factory (fst (connect m))) x))
           (fst (E (enforced m) q [] (seen m)))
   \<and> issued (snd (execute_query E m q (Some []))) = issued m @ [q]
   \<and> issued (snd (fetch_all E m q (Some []))) = issued m @ [q]
   \<and> issued (snd (fetch_one E m q (Some []))) = issued m @ [q]"
proof -
  obtain k m1 where k: "connect m = (k, m1)" by (cases "connect m")
  obtain r db' where r: "E (enforced m) q [] (seen m) = (r, db')"
    by (cases "E (enforced m) q [] (seen m)")
  then have r': "E (foreign_keys k) q (bound_values (Some [])) (pending k) = (r, db')"
    using connect_view(1,2) [OF k] by simp
  note i = connect_facts(2) [OF k]
  have same: "execute_query E m q (Some []) = execute_query E m q None"
    "fetch_all E m q (Some []) = fetch_all E m q None"
    "fetch_one E m q (Some []) = fetch_one E m q None"
    by (simp_all add: execute_query_def fetch_all_def fetch_one_def run_statement_empty)
  have run: "run_statement E c q (Some []) m = cursor_execute E c q [] m"
    "run_statement E c q None m = cursor_execute E c q [] m"
    by (simp_all add: run_statement_def)
  have cur: "fst (cursor_execute E c q [] m) = fst (E (foreign_keys c) q [] (pending c))"
    by (simp add: cursor_execute_def Let_def split: prod.splits)
  have 1: "fst (execute_query E m q (Some [])) = map_sum id rowcount r"
    "issued (snd (execute_query E m q (Some []))) = issued m @ [q]"
    unfolding execute_query_unfold [where E = E, OF k r']
    using i by (auto split: sum.splits py_exception.splits)
  have 2: "fst (fetch_all E m q (Some []))
             = map_sum id (\<lambda>cur. map (deliver (row_factory k)) (fetched cur)) r"
    "issued (snd (fetch_all E m q (Some []))) = issued m @ [q]"
    unfolding fetch_all_unfold [where E = E, OF k r']
    using i by auto
  have 3: "fst (fetch_one E m q (Some []))
             = map_sum id (\<lambda>cur. case fetched cur of [] \<Rightarrow> None
                                 | x # _ \<Rightarrow> Some (deliver (row_factory k) x)) r"
    "issued (snd (fetch_one E m q (Some []))) = issued m @ [q]"
    unfolding fetch_one_unfold [where E = E, OF k r']
    using i by auto
  have kk: "fst (connect m) = k" by (simp add: k)
  show ?thesis
    unfolding kk using same run cur 1 2 3 by (simp add: r)
qed

lemma connect_closed:
  assumes "connection m = None"
  shows "connect m =
     (\<lparr>handle = handles_made m, foreign_keys = True, row_factory = RowFactory,
       pending = db_file m\<rparr>,
      m\<lparr>open_handles := handles_made m # open_handles m,
        handles_made := Suc (handles_made m),
        connection := Some \<lparr>handle = handles_made m, foreign_keys = True,
                            row_factory = RowFactory, pending = db_file m\<rparr>\<rparr>)"
  using assms by (simp add: connect_def sqlite3_connect_def Let_def)

lemma connect_open:
  assumes "connection m = Some c"
  shows "connect m = (c, m)"
  using assms by (simp add: connect_def)

lemma close_closed: "connection (close m) = None"
  by (simp add: close_def split: option.splits)

lemma close_when_closed: "connection m = None \<Longrightarrow> close m = m"
  by (simp add: close_def)

lemma close_close: "close (close m) = close m"
  by (simp add: close_when_closed close_closed)

lemma close_many: "(close ^^ Suc n) m = close m"
  by (induction n) (simp_all add: close_close)

lemma close_keeps: "db_file (close m) = db_file m" "handles_made (close m) = handles_made m"
  "issued (close m) = issued m"
  by (simp_all add: close_def split: option.splits)

text \<open>After a query method the manager holds the connection it ran on, and no
  connection was opened or closed besides the one \<open>connect\<close> may have opened.\<close>

lemma query_keeps_connection:
  assumes "connect m = (c, m1)"
  shows "\<exists>db. connection (snd (execute_query E m q params)) = Some (c\<lparr>pending := db\<rparr>)"
    and "\<exists>db. connection (snd (fetch_all E m q params)) = Some (c\<lparr>pending := db\<rparr>)"
    and "\<exists>db. connection (snd (fetch_one E m q params)) = Some (c\<lparr>pending := db\<rparr>)"
    and "open_handles (snd (execute_query E m q params)) = open_handles m1"
    and "open_handles (snd (fetch_all E m q params)) = open_handles m1"
    and "open_handles (snd (fetch_one E m q params)) = open_handles m1"
    and "handles_made (snd (execute_query E m q params)) = handles_made m1"
    and "handles_made (snd (fetch_all E m q params)) = handles_made m1"
    and "handles_made (snd (fetch_one E m q params)) = handles_made m1"
proof -
  obtain r db' where r: "E (foreign_keys c) q (bound_values params) (pending c) = (r, db')"
    by (cases "E (foreign_keys c) q (bound_values params) (pending c)")
  note e = execute_query_unfold [where E = E, OF assms r]
  note a = fetch_all_unfold [where E = E, OF assms r]
  note b = fetch_one_unfold [where E = E, OF assms r]
  show "\<exists>db. connection (snd (execute_query E m q params)) = Some (c\<lparr>pending := db\<rparr>)"
    unfolding e by (auto split: sum.splits py_exception.splits)
  show "\<exists>db. connection (snd (fetch_all E m q params)) = Some (c\<lparr>pending := db\<rparr>)"
    unfolding a by auto
  show "\<exists>db. connection (snd (fetch_one E m q params)) = Some (c\<lparr>pending := db\<rparr>)"
    unfolding b by auto
  show "open_handles (snd (execute_query E m q params)) = open_handles m1"
    unfolding e by (auto split: sum.splits py_exception.splits)
  show "open_handles (snd (fetch_all E m q params)) = open_handles m1"
    unfolding a by auto
  show "open_handles (snd (fetch_one E m q params)) = open_handles m1"
    unfolding b by auto
  show "handles_made (snd (execute_query E m q params)) = handles_made m1"
    unfolding e by (auto split: sum.splits py_exception.splits)
  show "handles_made (snd (fetch_all E m q params)) = handles_made m1"
    unfolding a by auto
  show "handles_made (snd (fetch_one E m q params)) = handles_made m1"
    unfolding b by auto
qed

lemma connect_invariant:
  assumes "one_connection m \<and> named_rows m" and "connect m = (c, m1)"
  shows "open_handles m1 = [handle c] \<and> row_factory c = RowFactory"
proof (cases "connection m")
  case None
  with assms show ?thesis
    by (auto simp: connect_closed one_connection_def)
next
  case (Some c')
  with assms show ?thesis
    by (auto simp: connect_open one_connection_def named_rows_def)
qed

lemma do_call_invariant:
  assumes "one_connection m \<and> named_rows m"
  shows "one_connection (do_call E m k) \<and> named_rows (do_call E m k)"
proof -
  obtain c m1 where c: "connect m = (c, m1)" by (cases "connect m")
  note i = connect_invariant [OF assms c]
  note k = query_keeps_connection [where E = E, OF c]
  have m1: "connection m1 = Some c" using connect_facts(3) [OF c] .
  show ?thesis
  proof (cases k)
    case Connect
    then show ?thesis using i m1 c by (simp add: one_connection_def named_rows_def)
  next
    case (ExecuteQuery q params)
    then show ?thesis using i k(1,4) [of q params]
      by (auto simp: one_connection_def named_rows_def)
  next
    case (FetchAll q params)
    then show ?thesis using i k(2,5) [of q params]
      by (auto simp: one_connection_def named_rows_def)
  next
    case (FetchOne q params)
    then show ?thesis using i k(3,6) [of q params]
      by (auto simp: one_connection_def named_rows_def)
  next
    case Close
    then show ?thesis using assms
      by (auto simp: one_connection_def named_rows_def close_def split: option.splits)
  next
    case Enter
    then show ?thesis using assms by (simp add: enter_def)
  next
    case Exit
    then show ?thesis using assms
      by (auto simp: one_connection_def named_rows_def close_def exit_def split: option.splits)
  qed
qed

lemma do_calls_invariant:
  assumes "one_connection m \<and> named_rows m"
  shows "one_connection (do_calls E cs m) \<and> named_rows (do_calls E cs m)"
  using assms unfolding do_calls_def
  by (induction cs arbitrary: m) (simp_all add: do_call_invariant)

lemma init_invariant: "one_connection (init name file) \<and> named_rows (init name file)"
  by (simp add: one_connection_def named_rows_def init_def)

lemma fetch_all_named:
  assumes "named_rows m" and "fst (fetch_all E m q params) = Inr rows"
  shows "list_all is_named rows"
proof -
  obtain c m1 where c: "connect m = (c, m1)" by (cases "connect m")
  obtain r db' where r: "E (foreign_keys c) q (bound_values params) (pending c) = (r, db')"
    by (cases "E (foreign_keys c) q (bound_values params) (pending c)")
  have "row_factory c = RowFactory"
    using assms(1) c
    by (cases "connection m") (auto simp: connect_closed connect_open named_rows_def)
  then show ?thesis
    using assms(2) unfolding fetch_all_unfold [where E = E, OF c r]
    by (cases r) (auto simp: list_all_iff)
qed

text \<open>
  Claim C5. After every run of calls on a new manager the open connections are exactly
  the one the manager holds, if any, and \<^verbatim>\<open>fetch_all\<close> delivers rows that are read by
  field name. While a connection is open, \<^verbatim>\<open>connect\<close> returns it and changes nothing,
  and the three query methods run on it and open no other. A connection that
  \<^verbatim>\<open>connect\<close> creates enforces foreign keys and has the row factory \<^verbatim>\<open>sqlite3.Row\<close>.
\<close>

theorem single_connection_reused:
  "one_connection (do_calls E cs (init name file))
   \<and> (\<forall>rows. fst (fetch_all E (do_calls E cs (init name file)) q params) = Inr rows
        \<longrightarrow> list_all is_named rows)
   \<and> (\<forall>c. connection m = Some c \<longrightarrow>
        connect m = (c, m)
      \<and> map_option handle (connection (snd (execute_query E m q params))) = Some (handle c)
      \<and> map_option handle (connection (snd (fetch_all E m q params))) = Some (handle c)
      \<and> map_option handle (connection (snd (fetch_one E m q params))) = Some (handle c)
      \<and> handles_made (snd (execute_query E m q params)) = handles_made m
      \<and> handles_made (snd (fetch_all E m q params)) = handles_made m
      \<and> handles_made (snd (fetch_one E m q params)) = handles_made m)
   \<and> (connection m = None \<longrightarrow>
        foreign_keys (fst (connect m)) \<and> row_factory (fst (connect m)) = RowFactory
      \<and> connection (snd (connect m)) = Some (fst (connect m))
      \<and> handles_made (snd (connect m)) = Suc (handles_made m))"
proof -
  have inv: "one_connection (do_calls E cs (init name file))
             \<and> named_rows (do_calls E cs (init name file))"
    by (rule do_calls_invariant [OF init_invariant])
  have reuse: "connect m = (c, m)
      \<and> map_option handle (connection (snd (execute_query E m q params))) = Some (handle c)
      \<and> map_option handle (connection (snd (fetch_all E m q params))) = Some (handle c)
      \<and> map_option handle (connection (snd (fetch_one E m q params))) = Some (handle c)
      \<and> handles_made (snd (execute_query E m q params)) = handles_made m
      \<and> handles_made (snd (fetch_all E m q params)) = handles_made m
      \<and> handles_made (snd (fetch_one E m q params)) = handles_made m"
    if "connection m = Some c" for c
    using query_keeps_connection [where E = E and q = q and params = params,
        OF connect_open [OF that]] connect_open [OF that]
    by auto
  have new: "foreign_keys (fst (connect m)) \<and> row_factory (fst (connect m)) = RowFactory
      \<and> connection (snd (connect m)) = Some (fst (connect m))
      \<and> handles_made (snd (connect m)) = Suc (handles_made m)"
    if "connection m = None"
    by (simp add: connect_closed [OF that])
  show ?thesis
    using inv reuse new fetch_all_named [where E = E] by blast
qed

lemma new_manager_closed: "connection new_manager = None"
  by (simp add: new_manager_def init_def)

lemma open_manager_connection:
  "connection (snd (connect new_manager)) = Some (fst (connect new_manager))"
  by (simp add: connect_closed [OF new_manager_closed])

lemma fetch_names_answer:
  "fst (fetch_all sqlite
          (do_calls sqlite
             [ExecuteQuery (NotSQL ''INVALID SQL QUERY'') None, Close,
              FetchOne SelectTableNamed (Some [Text ''divisions''])]
             (init ''netball_stats.db'' one_division))
          SelectTableNames None)
   = Inr [Row [(''name'', Text ''divisions'')]]"
  by code_simp

theorem single_connection_reused_witness:
  "one_connection
     (do_calls sqlite
        [ExecuteQuery (NotSQL ''INVALID SQL QUERY'') None, Close,
         FetchOne SelectTableNamed (Some [Text ''divisions''])]
        (init ''netball_stats.db'' one_division))
   \<and> list_all is_named [Row [(''name'', Text ''divisions'')]]
   \<and> connect (snd (connect new_manager)) = (fst (connect new_manager), snd (connect new_manager))
   \<and> foreign_keys (fst (connect new_manager))
   \<and> row_factory (fst (connect new_manager)) = RowFactory"
  using single_connection_reused [of sqlite
      "[ExecuteQuery (NotSQL ''INVALID SQL QUERY'') None, Close,
         FetchOne SelectTableNamed (Some [Text ''divisions''])]"
      "''netball_stats.db''" one_division SelectTableNames None "snd (connect new_manager)"]
    single_connection_reused [of sqlite
      "[ExecuteQuery (NotSQL ''INVALID SQL QUERY'') None, Close,
         FetchOne SelectTableNamed (Some [Text ''divisions''])]"
      "''netball_stats.db''" one_division SelectTableNames None new_manager]
    fetch_names_answer open_manager_connection new_manager_closed
  by simp

lemma close_releases:
  "open_handles (close m)
     = (case connection m of None \<Rightarrow> open_handles m
        | Some c \<Rightarrow> remove1 (handle c) (open_handles m))"
  by (simp add: close_def split: option.splits)

lemma close_releases_all:
  "open_handles (close (do_calls E cs (init name file))) = []"
proof -
  have "one_connection (do_calls E cs (init name file))"
    using do_calls_invariant [where E = E and cs = cs, OF init_invariant [of name "file"]]
    by blast
  then show ?thesis
    by (simp add: close_def one_connection_def split: option.splits)
qed

lemma connect_after_close:
  "connect (close m) =
     (\<lparr>handle = handles_made m, foreign_keys = True, row_factory = RowFactory,
       pending = db_file m\<rparr>,
      (close m)\<lparr>open_handles := handles_made m # open_handles (close m),
        handles_made := Suc (handles_made m),
        connection := Some \<lparr>handle = handles_made m, foreign_keys = True,
                            row_factory = RowFactory, pending = db_file m\<rparr>\<rparr>)"
  using connect_closed [OF close_closed, of m] by (simp add: close_keeps)

lemma query_after_close:
  "handles_made (snd (execute_query E (close m) q params)) = Suc (handles_made m)"
  "handles_made (snd (fetch_all E (close m) q params)) = Suc (handles_made m)"
  "handles_made (snd (fetch_one E (close m) q params)) = Suc (handles_made m)"
  "open_handles (snd (execute_query E (close m) q params))
     = handles_made m # open_handles (close m)"
  "open_handles (snd (fetch_all E (close m) q params))
     = handles_made m # open_handles (close m)"
  "open_handles (snd (fetch_one E (close m) q params))
     = handles_made m # open_handles (close m)"
  using query_keeps_connection(4-9) [where E = E, OF connect_after_close, of m q params]
  by simp_all

lemma connect_handle_below:
  assumes "\<forall>c. connection m = Some c \<longrightarrow> handle c < handles_made m"
    and "connect m = (c, m1)"
  shows "handle c < handles_made m1"
proof (cases "connection m")
  case None
  with assms(2) show ?thesis by (auto simp: connect_closed)
next
  case (Some c')
  with assms show ?thesis by (auto simp: connect_open)
qed

lemma do_call_handle_below:
  assumes "\<forall>c. connection m = Some c \<longrightarrow> handle c < handles_made m"
  shows "\<forall>c. connection (do_call E m k) = Some c \<longrightarrow> handle c < handles_made (do_call E m k)"
proof -
  obtain c m1 where c: "connect m = (c, m1)" by (cases "connect m")
  note b = connect_handle_below [OF assms c]
  note k = query_keeps_connection [where E = E, OF c]
  have m1: "connection m1 = Some c" using connect_facts(3) [OF c] .
  show ?thesis
  proof (cases k)
    case Connect
    then show ?thesis using b m1 c by simp
  next
    case (ExecuteQuery q params)
    then show ?thesis using b k(1,7) [of q params] by auto
  next
    case (FetchAll q params)
    then show ?thesis using b k(2,8) [of q params] by auto
  next
    case (FetchOne q params)
    then show ?thesis using b k(3,9) [of q params] by auto
  next
    case Close
    then show ?thesis by (simp add: close_closed)
  next
    case Enter
    then show ?thesis using assms by (simp add: enter_def)
  next
    case Exit
    then show ?thesis by (simp add: exit_def close_closed)
  qed
qed

lemma do_calls_handle_below:
  assumes "\<forall>c. connection m = Some c \<longrightarrow> handle c < handles_made m"
  shows "\<forall>c. connection (do_calls E cs m) = Some c
           \<longrightarrow> handle c < handles_made (do_calls E cs m)"
  using assms unfolding do_calls_def
proof (induction cs arbitrary: m)
  case Nil
  then show ?case by simp
next
  case (Cons k cs)
  show ?case
    using Cons.IH [OF do_call_handle_below [where E = E and k = k, OF Cons.prems]] by simp
qed

lemma new_handle_is_new:
  "map_option handle (connection (do_calls E cs (init name file)))
     \<noteq> Some (handles_made (do_calls E cs (init name file)))"
proof -
  have "\<forall>c. connection (do_calls E cs (init name file)) = Some c
          \<longrightarrow> handle c < handles_made (do_calls E cs (init name file))"
    by (rule do_calls_handle_below) (simp add: init_def)
  then show ?thesis
    by (cases "connection (do_calls E cs (init name file))") auto
qed

text \<open>
  Claim C4. \<^verbatim>\<open>close\<close> leaves the manager without a connection and releases the
  connection it held: its handle leaves the open ones, and after any run of calls on a
  new manager no connection stays open. Closing again (any number of times) or closing
  a manager that has no connection changes nothing. A query method called after
  \<^verbatim>\<open>close\<close> opens one new connection: \<^verbatim>\<open>sqlite3.connect\<close> is called once more, the
  new handle is open and is the one the manager holds (after a run of calls on a new
  manager it is the only open one, and not the connection that was closed), and the
  statement runs on it with foreign keys on, on the committed file; the result of the
  method is the engine's answer, not a failure for want of a connection.
\<close>

theorem close_idempotent_lazy_reconnect:
  "connection (close m) = None
   \<and> close (close m) = close m
   \<and> (close ^^ Suc n) m = close m
   \<and> close (m\<lparr>connection := None\<rparr>) = m\<lparr>connection := None\<rparr>
   \<and> open_handles (close m)
       = (case connection m of None \<Rightarrow> open_handles m
          | Some c \<Rightarrow> remove1 (handle c) (open_handles m))
   \<and> handles_made (close m) = handles_made m
   \<and> db_file (close m) = db_file m
   \<and> open_handles (close (do_calls E cs (init name file))) = []
   \<and> fst (execute_query E (close m) q params)
       = map_sum id rowcount (fst (E True q (bound_values params) (db_file m)))
   \<and> fst (fetch_all E (close m) q params)
       = map_sum id (\<lambda>cur. map Row (fetched cur)) (fst (E True q (bound_values params) (db_file m)))
   \<and> fst (fetch_one E (close m) q params)
       = map_sum id (\<lambda>cur. map_option Row (case fetched cur of [] \<Rightarrow> None | x # _ \<Rightarrow> Some x))
           (fst (E True q (bound_values params) (db_file m)))
   \<and> map_option handle (connection (snd (execute_query E (close m) q params)))
       = Some (handles_made m)
   \<and> map_option handle (connection (snd (fetch_all E (close m) q params)))
       = Some (handles_made m)
   \<and> map_option handle (connection (snd (fetch_one E (close m) q params)))
       = Some (handles_made m)
   \<and> handles_made (snd (execute_query E (close m) q params)) = Suc (handles_made m)
   \<and> handles_made (snd (fetch_all E (close m) q params)) = Suc (handles_made m)
   \<and> handles_made (snd (fetch_one E (close m) q params)) = Suc (handles_made m)
   \<and> open_handles (snd (execute_query E (close m) q params))
       = handles_made m # open_handles (close m)
   \<and> open_handles (snd (fetch_all E (close m) q params))
       = handles_made m # open_handles (close m)
   \<and> open_handles (snd (fetch_one E (close m) q params))
       = handles_made m # open_handles (close m)
   \<and> open_handles (snd (execute_query E (close (do_calls E cs (init name file))) q params))
       = [handles_made (do_calls E cs (init name file))]
   \<and> open_handles (snd (fetch_all E (close (do_calls E cs (init name file))) q params))
       = [handles_made (do_calls E cs (init name file))]
   \<and> open_handles (snd (fetch_one E (close (do_calls E cs (init name file))) q params))
       = [handles_made (do_calls E cs (init name file))]
   \<and> map_option handle (connection (do_calls E cs (init name file)))
       \<noteq> Some (handles_made (do_calls E cs (init name file)))"
proof -
  let ?c = "\<lparr>handle = handles_made m, foreign_keys = True, row_factory = RowFactory,
             pending = db_file m\<rparr>"
  let ?M = "do_calls E cs (init name file)"
  obtain m1 where c: "connect (close m) = (?c, m1)"
    using connect_after_close [of m] by simp
  obtain r db' where r: "E True q (bound_values params) (db_file m) = (r, db')"
    by (cases "E True q (bound_values params) (db_file m)")
  then have r': "E (foreign_keys ?c) q (bound_values params) (pending ?c) = (r, db')"
    by simp
  have 1: "fst (execute_query E (close m) q params) = map_sum id rowcount r"
    unfolding execute_query_unfold [where E = E, OF c r']
    by (auto split: sum.splits py_exception.splits)
  have 2: "fst (fetch_all E (close m) q params) = map_sum id (\<lambda>cur. map Row (fetched cur)) r"
    unfolding fetch_all_unfold [where E = E, OF c r']
    by (cases r) auto
  have 3: "fst (fetch_one E (close m) q params)
       = map_sum id (\<lambda>cur. map_option Row (case fetched cur of [] \<Rightarrow> None | x # _ \<Rightarrow> Some x)) r"
    unfolding fetch_one_unfold [where E = E, OF c r']
    by (cases r) (auto split: list.splits)
  have 4: "map_option handle (connection (snd (execute_query E (close m) q params)))
       = Some (handles_made m)"
    using query_keeps_connection(1) [where E = E, OF c, of q params] by auto
  have 5: "map_option handle (connection (snd (fetch_all E (close m) q params)))
       = Some (handles_made m)"
    using query_keeps_connection(2) [where E = E, OF c, of q params] by auto
  have 6: "map_option handle (connection (snd (fetch_one E (close m) q params)))
       = Some (handles_made m)"
    using query_keeps_connection(3) [where E = E, OF c, of q params] by auto
  have 7: "close (m\<lparr>connection := None\<rparr>) = m\<lparr>connection := None\<rparr>"
    by (simp add: close_when_closed)
  have 8: "open_handles (snd (execute_query E (close ?M) q params)) = [handles_made ?M]"
    "open_handles (snd (fetch_all E (close ?M) q params)) = [handles_made ?M]"
    "open_handles (snd (fetch_one E (close ?M) q params)) = [handles_made ?M]"
    by (simp_all add: query_after_close close_releases_all)
  show ?thesis
    using 1 2 3 4 5 6 7 8 close_closed [of m] close_close [of m] close_many [of n m]
      close_releases [of m] close_releases_all [of E cs name "file"]
      new_handle_is_new [of E cs name "file"]
    by (simp add: r close_keeps query_after_close)
qed

text \<open>
  Claim C8, as amended. Entering the scope returns the manager itself and opens no
  connection (the first query of the body opens it); leaving the scope calls
  \<^verbatim>\<open>close\<close>, whether the body returned or raised, and the exception of the body goes
  on to the caller.
\<close>

theorem scope_closes_on_exit:
  "enter m = m
   \<and> snd (with_manager m body) = close (snd (body m))
   \<and> connection (snd (with_manager m body)) = None
   \<and> fst (with_manager m body) = map_sum id Some (fst (body m))"
  by (cases "body m")
     (auto simp: with_manager_def enter_def exit_def close_closed split: sum.splits)

text \<open>
  Claim C8 as stated fails: after \<^verbatim>\<open>__enter__\<close> on a new manager no connection has been
  acquired (none is held, none is open, \<^verbatim>\<open>sqlite3.connect\<close> was never called).
\<close>

theorem enter_opens_no_connection:
  "connection (enter (init ''netball_stats.db'' ([] :: database) :: db_manager)) = None
   \<and> open_handles (enter (init ''netball_stats.db'' ([] :: database) :: db_manager)) = []
   \<and> handles_made (enter (init ''netball_stats.db'' ([] :: database) :: db_manager)) = 0"
  by (simp add: enter_def init_def)

section \<open>Properties of the schema manager\<close>

lemma execute_query_ok:
  assumes "E (enforced m) q (bound_values ps) (seen m) = (Inr cur, db')"
  shows "fst (execute_query E m q ps) = Inr (rowcount cur)"
    and "seen (snd (execute_query E m q ps)) = db'"
    and "db_file (snd (execute_query E m q ps)) = db'"
    and "enforced (snd (execute_query E m q ps)) = enforced m"
    and "issued (snd (execute_query E m q ps)) = issued m @ [q]"
proof -
  obtain c m1 where c: "connect m = (c, m1)" by (cases "connect m")
  have r: "E (foreign_keys c) q (bound_values ps) (pending c) = (Inr cur, db')"
    using assms connect_view(1,2) [OF c] by simp
  note u = execute_query_unfold [where E = E, OF c r]
  show "fst (execute_query E m q ps) = Inr (rowcount cur)" by (simp add: u)
  show "seen (snd (execute_query E m q ps)) = db'" by (simp add: u seen_def)
  show "db_file (snd (execute_query E m q ps)) = db'" by (simp add: u)
  show "enforced (snd (execute_query E m q ps)) = enforced m"
    using connect_view(1) [OF c] by (simp add: u enforced_def)
  show "issued (snd (execute_query E m q ps)) = issued m @ [q]"
    using connect_facts(2) [OF c] by (simp add: u)
qed

lemma execute_query_error:
  assumes "E (enforced m) q (bound_values ps) (seen m) = (Inl (SqliteError e), db')"
  shows "fst (execute_query E m q ps) = Inl (SqliteError e)"
    and "seen (snd (execute_query E m q ps)) = db_file m"
    and "db_file (snd (execute_query E m q ps)) = db_file m"
    and "enforced (snd (execute_query E m q ps)) = enforced m"
    and "issued (snd (execute_query E m q ps)) = issued m @ [q]"
proof -
  obtain c m1 where c: "connect m = (c, m1)" by (cases "connect m")
  have r: "E (foreign_keys c) q (bound_values ps) (pending c) = (Inl (SqliteError e), db')"
    using assms connect_view(1,2) [OF c] by simp
  note u = execute_query_unfold [where E = E, OF c r]
  show "fst (execute_query E m q ps) = Inl (SqliteError e)" by (simp add: u)
  show "seen (snd (execute_query E m q ps)) = db_file m"
    using connect_facts(1) [OF c] by (simp add: u seen_def)
  show "db_file (snd (execute_query E m q ps)) = db_file m"
    using connect_facts(1) [OF c] by (simp add: u)
  show "enforced (snd (execute_query E m q ps)) = enforced m"
    using connect_view(1) [OF c] by (simp add: u enforced_def)
  show "issued (snd (execute_query E m q ps)) = issued m @ [q]"
    using connect_facts(2) [OF c] by (simp add: u)
qed

lemma and_then_ok: "fst r = Inr x \<Longrightarrow> and_then r f = f (snd r)"
  by (cases r) (simp add: and_then_def)

lemma not_reserved:
  "\<not> reserved ''divisions''" "\<not> reserved ''teams''" "\<not> reserved ''players''"
  "\<not> reserved ''matches''" "\<not> reserved ''player_stats''"
  by code_simp+

lemma create_if_not_exists:
  "\<not> reserved n \<Longrightarrow> sqlite fk (CreateTable True n d) [] db = (Inr no_cursor, ensure n d db)"
  by (simp add: create_table_def ensure_def)




lemma create_tables_view:
  "fst (create_tables m) = Inr ()"
  "seen (snd (create_tables m)) = declared (seen m)"
  "db_file (snd (create_tables m)) = declared (seen m)"
  "enforced (snd (create_tables m)) = enforced m"
  "issued (snd (create_tables m)) = issued m @
     [CreateTable True ''divisions'' divisions_decl,
      CreateTable True ''teams'' teams_decl,
      CreateTable True ''players'' players_decl,
      CreateTable True ''matches'' matches_decl,
      CreateTable True ''player_stats'' player_stats_decl]"
proof -
  define m1 where "m1 = snd (execute_query sqlite m (CreateTable True ''divisions'' divisions_decl) None)"
  define m2 where "m2 = snd (execute_query sqlite m1 (CreateTable True ''teams'' teams_decl) None)"
  define m3 where "m3 = snd (execute_query sqlite m2 (CreateTable True ''players'' players_decl) None)"
  define m4 where "m4 = snd (execute_query sqlite m3 (CreateTable True ''matches'' matches_decl) None)"
  define m5 where "m5 = snd (execute_query sqlite m4 (CreateTable True ''player_stats'' player_stats_decl) None)"
  have step: "fst (execute_query sqlite m (CreateTable True n d) None) = Inr (- 1)
      \<and> seen (snd (execute_query sqlite m (CreateTable True n d) None)) = ensure n d (seen m)
      \<and> db_file (snd (execute_query sqlite m (CreateTable True n d) None)) = ensure n d (seen m)
      \<and> enforced (snd (execute_query sqlite m (CreateTable True n d) None)) = enforced m
      \<and> issued (snd (execute_query sqlite m (CreateTable True n d) None))
          = issued m @ [CreateTable True n d]"
    if "\<not> reserved n" for n d and m :: db_manager
    using execute_query_ok [where E = sqlite and m = m and ps = None and q = "CreateTable True n d",
        OF create_if_not_exists [OF that, of "enforced m" d "seen m", simplified bound_values.simps [symmetric]]]
    by (simp add: no_cursor_def)
  note s1 = step [OF not_reserved(1), of m divisions_decl, folded m1_def]
  note s2 = step [OF not_reserved(2), of m1 teams_decl, folded m2_def]
  note s3 = step [OF not_reserved(3), of m2 players_decl, folded m3_def]
  note s4 = step [OF not_reserved(4), of m3 matches_decl, folded m4_def]
  note s5 = step [OF not_reserved(5), of m4 player_stats_decl, folded m5_def]
  have "create_tables m = (Inr (), m5)"
    unfolding create_tables_def
    using s1 s2 s3 s4 s5
    by (simp add: and_then_ok m1_def [symmetric] m2_def [symmetric] m3_def [symmetric]
        m4_def [symmetric] m5_def [symmetric])
  then show "fst (create_tables m) = Inr ()"
    "seen (snd (create_tables m)) = declared (seen m)"
    "db_file (snd (create_tables m)) = declared (seen m)"
    "enforced (snd (create_tables m)) = enforced m"
    "issued (snd (create_tables m)) = issued m @
     [CreateTable True ''divisions'' divisions_decl,
      CreateTable True ''teams'' teams_decl,
      CreateTable True ''players'' players_decl,
      CreateTable True ''matches'' matches_decl,
      CreateTable True ''player_stats'' player_stats_decl]"
    using s1 s2 s3 s4 s5 by (simp_all add: declared_def)
qed

lemma orphans_no_action: "no_restrict db \<Longrightarrow> orphans NoAction db dead = []"
  by (auto simp: orphans_def orphaned_def no_restrict_def list_all_iff list_ex_iff
      filter_empty_conv)

lemma delete_rows_cascades:
  "no_restrict db \<Longrightarrow>
   delete_rows fk name rs db =
     Inr (remove_rows (if fk then cascade db (map (Pair name) rs) else map (Pair name) rs) db)"
  by (simp add: delete_rows_def orphans_no_action)
















lemma declared_empty: "declared [] = netball_db [] [] [] [] []"
  by (simp add: declared_def ensure_def netball_db_def)

lemma declared_netball: "declared (netball_db ds ts ps ms ss) = netball_db ds ts ps ms ss"
  by (simp add: declared_def ensure_def netball_db_def)

lemma fresh_schema_state:
  "fresh_schema =
     \<lparr>db_name = ''netball_stats.db'',
      connection = Some \<lparr>handle = 0, foreign_keys = True, row_factory = RowFactory,
                         pending = netball_db [] [] [] [] []\<rparr>,
      db_file = netball_db [] [] [] [] [],
      open_handles = [0], handles_made = 1,
      issued = [CreateTable True ''divisions'' divisions_decl,
                CreateTable True ''teams'' teams_decl,
                CreateTable True ''players'' players_decl,
                CreateTable True ''matches'' matches_decl,
                CreateTable True ''player_stats'' player_stats_decl]\<rparr>"
  by code_simp

lemma with_sqlitex_state:
  "execute_query sqlite fresh_schema (CreateTable False ''sqlitex'' id_only) None =
     (Inr (- 1),
     \<lparr>db_name = ''netball_stats.db'',
      connection = Some \<lparr>handle = 0, foreign_keys = True, row_factory = RowFactory,
                         pending = netball_db [] [] [] [] []
                                   @ [(''sqlitex'', \<lparr>decl = id_only, contents = []\<rparr>)]\<rparr>,
      db_file = netball_db [] [] [] [] [] @ [(''sqlitex'', \<lparr>decl = id_only, contents = []\<rparr>)],
      open_handles = [0], handles_made = 1,
      issued = [CreateTable True ''divisions'' divisions_decl,
                CreateTable True ''teams'' teams_decl,
                CreateTable True ''players'' players_decl,
                CreateTable True ''matches'' matches_decl,
                CreateTable True ''player_stats'' player_stats_decl,
                CreateTable False ''sqlitex'' id_only]\<rparr>)"
  unfolding fresh_schema_state by code_simp

text \<open>
  Claim C10 at the input where the code departs from it. The table \<^verbatim>\<open>sqlitex\<close> is
  created through \<^verbatim>\<open>execute_query\<close> after \<^verbatim>\<open>create_tables\<close>; its name does not begin
  with \<^verbatim>\<open>sqlite_\<close>, so it is one of the "other" tables of the claim. Yet
  \<^verbatim>\<open>table_exists\<close> answers true for it and \<^verbatim>\<open>get_table_names\<close> leaves it out: in the
  pattern \<^verbatim>\<open>'sqlite_%'\<close> the underscore stands for any one character.
\<close>

theorem like_pattern_hides_user_table:
  "fst (execute_query sqlite fresh_schema (CreateTable False ''sqlitex'' id_only) None) = Inr (- 1)
   \<and> fst (table_exists with_sqlitex ''sqlitex'') = Inr True
   \<and> fst (get_table_names with_sqlitex)
       = Inr [Text ''divisions'', Text ''matches'', Text ''player_stats'', Text ''players'',
              Text ''teams'']
   \<and> take 7 ''sqlitex'' \<noteq> ''sqlite_''"
  unfolding with_sqlitex_def with_sqlitex_state by code_simp

lemma raises_sqlite [simp]: "fst (raise_sqlite e db) \<noteq> Inl (OtherException x)"
  by (simp add: raise_sqlite_def)

lemma create_table_errors: "fst (create_table ine n d vs db) \<noteq> Inl (OtherException x)"
  by (simp add: create_table_def)

lemma drop_table_errors: "fst (drop_table fk ie n vs db) \<noteq> Inl (OtherException x)"
  by (simp add: drop_table_def split: option.split sum.split)

lemma insert_row_errors: "fst (insert_row fk cf n cols vs db) \<noteq> Inl (OtherException x)"
  by (simp add: insert_row_def Let_def split: option.split val.split conflict.split)

lemma delete_where_errors: "fst (delete_where fk n c vs db) \<noteq> Inl (OtherException x)"
  by (simp add: delete_where_def split: option.split list.split sum.split)

lemma select_rows_errors: "fst (select_rows n cond db) \<noteq> Inl (OtherException x)"
  by (simp add: select_rows_def split: option.split prod.split)


lemma select_then_raise_errors:
  "fst (case select_rows n cond db of
          (Inl e, db') \<Rightarrow> (Inl e, db')
        | (Inr c, db') \<Rightarrow> raise_sqlite e2 db') \<noteq> Inl (OtherException x)"
  using select_rows_errors [of n cond db x]
  by (cases "select_rows n cond db"; cases "fst (select_rows n cond db)") auto

lemma sqlite_raises_only_sqlite_errors:
  "fst (sqlite fk q vs db) \<noteq> Inl (OtherException x)"
proof (cases q)
  case (CreateTable ine n d)
  then show ?thesis by (simp add: create_table_errors)
next
  case (DropTable ie n)
  then show ?thesis by (simp add: drop_table_errors)
next
  case (InsertInto cf n cols)
  then show ?thesis by (simp add: insert_row_errors)
next
  case (DeleteWhere n c)
  then show ?thesis by (simp add: delete_where_errors)
next
  case (SelectAll n)
  then show ?thesis by (simp add: select_rows_errors)
next
  case (SelectWhere n c)
  show ?thesis
  proof (cases vs)
    case Nil
    then show ?thesis
      using select_then_raise_errors [where n = n and cond = "Some (c, Null)" and db = db] SelectWhere by simp
  next
    case (Cons v rest)
    then show ?thesis
      using select_then_raise_errors [where n = n and cond = "Some (c, Null)" and db = db] SelectWhere
      by (cases rest) (simp_all add: select_rows_errors)
  qed
next
  case SelectTableNames
  then show ?thesis by (simp add: select_table_names_def)
next
  case SelectTableNamed
  then show ?thesis by (cases vs; cases "tl vs") (simp_all add: select_table_named_def)
next
  case (NotSQL t)
  then show ?thesis by simp
qed


lemma and_then_error: "fst r = Inl e \<Longrightarrow> and_then r f = (Inl e, snd r)"
  by (cases r) (simp add: and_then_def)

lemma for_each_view:
  fixes body :: "'a \<Rightarrow> db_manager \<Rightarrow> int result"
  assumes body: "\<And>x m. body x m = execute_query sqlite m (stmt x) (args x)"
  shows "view (for_each xs body m)
           = run_all (enforced m) (map (\<lambda>x. (stmt x, args x)) xs) (seen m) (db_file m)
         \<and> enforced (snd (for_each xs body m)) = enforced m"
proof (induction xs arbitrary: m)
  case Nil
  show ?case by (simp add: view_def)
next
  case (Cons x xs)
  obtain r s' where r: "sqlite (enforced m) (stmt x) (bound_values (args x)) (seen m) = (r, s')"
    by (cases "sqlite (enforced m) (stmt x) (bound_values (args x)) (seen m)")
  show ?case
  proof (cases r)
    case (Inr cur)
    note ok = execute_query_ok [where E = sqlite, OF r [unfolded Inr], folded body]
    have "for_each (x # xs) body m = for_each xs body (snd (body x m))"
      using ok(1) by (simp add: and_then_ok)
    then show ?thesis
      using Cons.IH [of "snd (body x m)"] ok r Inr by simp
  next
    case (Inl e)
    then obtain e' where e: "e = SqliteError e'"
      using sqlite_raises_only_sqlite_errors [of "enforced m" "stmt x" "bound_values (args x)" "seen m"] r
      by (cases e) auto
    note err = execute_query_error [where E = sqlite, OF r [unfolded Inl e], folded body]
    have "for_each (x # xs) body m = (Inl e, snd (body x m))"
      using err(1) e by (simp add: and_then_error)
    then show ?thesis
      using err r Inl e by (simp add: view_def)
  qed
qed

lemma for_each_issued:
  fixes body :: "'a \<Rightarrow> db_manager \<Rightarrow> int result"
  assumes body: "\<And>x m. body x m = execute_query sqlite m (stmt x) (args x)"
  shows "fst (for_each xs body m) = Inr () \<Longrightarrow>
         issued (snd (for_each xs body m)) = issued m @ map stmt xs"
proof (induction xs arbitrary: m)
  case Nil
  show ?case by simp
next
  case (Cons x xs)
  obtain r s' where r: "sqlite (enforced m) (stmt x) (bound_values (args x)) (seen m) = (r, s')"
    by (cases "sqlite (enforced m) (stmt x) (bound_values (args x)) (seen m)")
  show ?case
  proof (cases r)
    case (Inr cur)
    note ok = execute_query_ok [where E = sqlite, OF r [unfolded Inr], folded body]
    have eq: "for_each (x # xs) body m = for_each xs body (snd (body x m))"
      using ok(1) by (simp add: and_then_ok)
    show ?thesis
      using Cons.IH [of "snd (body x m)"] Cons.prems ok(5) unfolding eq by simp
  next
    case (Inl e)
    then obtain e' where e: "e = SqliteError e'"
      using sqlite_raises_only_sqlite_errors [of "enforced m" "stmt x" "bound_values (args x)" "seen m"] r
      by (cases e) auto
    note err = execute_query_error [where E = sqlite, OF r [unfolded Inl e], folded body]
    have "for_each (x # xs) body m = (Inl e, snd (body x m))"
      using err(1) e by (simp add: and_then_error)
    then show ?thesis using Cons.prems by simp
  qed
qed

lemma run_all_append:
  "run_all fk (qs @ qs') s f =
     (case run_all fk qs s f of
        (Inr u, s', f') \<Rightarrow> run_all fk qs' s' f'
      | (Inl e, s', f') \<Rightarrow> (Inl e, s', f'))"
  by (induction fk qs s f rule: run_all.induct) (auto split: prod.splits sum.splits)

lemma and_then_view:
  fixes r :: "unit result" and g :: "db_manager \<Rightarrow> unit result"
  assumes 1: "view r = run_all fk qs s f \<and> enforced (snd r) = fk"
    and 2: "\<And>m. enforced m = fk \<Longrightarrow>
              view (g m) = run_all fk qs' (seen m) (db_file m) \<and> enforced (snd (g m)) = fk"
  shows "view (and_then r g) = run_all fk (qs @ qs') s f \<and> enforced (snd (and_then r g)) = fk"
proof (cases "fst r")
  case (Inl e)
  then have "and_then r g = (Inl e, snd r)" by (rule and_then_error)
  then show ?thesis
    using 1 Inl by (auto simp: view_def run_all_append split: prod.splits sum.splits)
next
  case (Inr u)
  then have "and_then r g = g (snd r)" by (rule and_then_ok)
  then show ?thesis
    using 1 2 [of "snd r"] Inr
    by (auto simp: view_def run_all_append split: prod.splits sum.splits)
qed

lemma and_then_issued:
  fixes r :: "unit result" and g :: "db_manager \<Rightarrow> unit result"
  assumes "fst (and_then r g) = Inr ()"
    and "fst r = Inr () \<Longrightarrow> issued (snd r) = i @ qs"
    and "\<And>m. fst (g m) = Inr () \<Longrightarrow> issued (snd (g m)) = issued m @ qs'"
  shows "fst r = Inr () \<and> issued (snd (and_then r g)) = i @ qs @ qs'"
proof (cases "fst r")
  case (Inl e)
  then have "and_then r g = (Inl e, snd r)" by (rule and_then_error)
  then show ?thesis using assms(1) by simp
next
  case (Inr u)
  then have "and_then r g = g (snd r)" by (rule and_then_ok)
  then show ?thesis using assms Inr by simp
qed

lemma insert_bodies:
  "insert_division x1 m = execute_query sqlite m
     (InsertInto Ignore ''divisions'' [''id'', ''name'']) (division_values x1)"
  "insert_team x2 m = execute_query sqlite m
     (InsertInto Ignore ''teams'' [''id'', ''name'', ''division_id'']) (team_values x2)"
  "insert_player x3 m = execute_query sqlite m
     (InsertInto Ignore ''players'' [''id'', ''name'', ''position'', ''team_id''])
     (player_values x3)"
  "insert_match x4 m = execute_query sqlite m
     (InsertInto Ignore ''matches''
        [''id'', ''date'', ''division_id'', ''team1_id'', ''team2_id'',
         ''team1_score'', ''team2_score'']) (match_values x4)"
  "insert_player_stat x5 m = execute_query sqlite m
     (InsertInto Ignore ''player_stats''
        [''id'', ''player_id'', ''match_id'', ''attempts'', ''goals'',
         ''center_passes'', ''tips'', ''rebounds'', ''interceptions'', ''turnovers''])
     (player_stat_values x5)"
  by (simp_all add: insert_division_def insert_team_def insert_player_def insert_match_def
      insert_player_stat_def division_values_def team_values_def player_values_def
      match_values_def player_stat_values_def split: prod.splits)

lemma loop_view:
  fixes body :: "'a \<Rightarrow> db_manager \<Rightarrow> int result"
  assumes "\<And>x m. body x m = execute_query sqlite m Q (A x)"
  shows "view (for_each xs body m)
           = run_all (enforced m) (map (\<lambda>x. (Q, A x)) xs) (seen m) (db_file m)
         \<and> enforced (snd (for_each xs body m)) = enforced m"
  using for_each_view [where stmt = "\<lambda>x. Q" and args = A and body = body, OF assms] by simp

lemma loop_issued:
  fixes body :: "'a \<Rightarrow> db_manager \<Rightarrow> int result"
  assumes "\<And>x m. body x m = execute_query sqlite m Q (A x)"
  shows "fst (for_each xs body m) = Inr () \<Longrightarrow>
         issued (snd (for_each xs body m)) = issued m @ map (\<lambda>x. fst (Q, A x)) xs"
  using for_each_issued [where stmt = "\<lambda>x. Q" and args = A and body = body, OF assms] by simp

lemma insert_sample_data_view:
  "view (insert_sample_data m) = run_all (enforced m) sample_inserts (seen m) (db_file m)
   \<and> enforced (snd (insert_sample_data m)) = enforced m"
proof -
  define fk where "fk = enforced m"
  let ?q1 = "map (\<lambda>x. (InsertInto Ignore ''divisions'' [''id'', ''name''],
                    division_values x)) divisions"
  let ?q2 = "map (\<lambda>x. (InsertInto Ignore ''teams''
                    [''id'', ''name'', ''division_id''], team_values x)) teams"
  let ?q3 = "map (\<lambda>x. (InsertInto Ignore ''players''
                    [''id'', ''name'', ''position'', ''team_id''], player_values x)) players"
  let ?q4 = "map (\<lambda>x. (InsertInto Ignore ''matches''
                    [''id'', ''date'', ''division_id'', ''team1_id'', ''team2_id'',
                     ''team1_score'', ''team2_score''], match_values x)) matches"
  let ?q5 = "map (\<lambda>x. (InsertInto Ignore ''player_stats''
                    [''id'', ''player_id'', ''match_id'', ''attempts'', ''goals'',
                     ''center_passes'', ''tips'', ''rebounds'', ''interceptions'',
                     ''turnovers''], player_stat_values x)) player_stats"
  let ?g5 = "\<lambda>m. for_each player_stats insert_player_stat m"
  let ?g4 = "\<lambda>m. and_then (for_each matches insert_match m) ?g5"
  let ?g3 = "\<lambda>m. and_then (for_each players insert_player m) ?g4"
  let ?g2 = "\<lambda>m. and_then (for_each teams insert_team m) ?g3"
  have l5: "view (?g5 m') = run_all fk ?q5 (seen m') (db_file m')
            \<and> enforced (snd (?g5 m')) = fk"
    if "enforced m' = fk" for m'
    using loop_view [of insert_player_stat _ player_stat_values player_stats m', OF insert_bodies(5)] that
    by simp
  have l4: "view (for_each matches insert_match m') = run_all fk ?q4 (seen m') (db_file m')
            \<and> enforced (snd (for_each matches insert_match m')) = fk"
    if "enforced m' = fk" for m'
    using loop_view [of insert_match _ match_values matches m', OF insert_bodies(4)] that
    by simp
  have l3: "view (for_each players insert_player m') = run_all fk ?q3 (seen m') (db_file m')
            \<and> enforced (snd (for_each players insert_player m')) = fk"
    if "enforced m' = fk" for m'
    using loop_view [of insert_player _ player_values players m', OF insert_bodies(3)] that
    by simp
  have l2: "view (for_each teams insert_team m') = run_all fk ?q2 (seen m') (db_file m')
            \<and> enforced (snd (for_each teams insert_team m')) = fk"
    if "enforced m' = fk" for m'
    using loop_view [of insert_team _ team_values teams m', OF insert_bodies(2)] that
    by simp
  have l1: "view (for_each divisions insert_division m) = run_all fk ?q1 (seen m) (db_file m)
            \<and> enforced (snd (for_each divisions insert_division m)) = fk"
    using loop_view [of insert_division _ division_values divisions m, OF insert_bodies(1)]
    by (simp add: fk_def)
  have s4: "view (?g4 m') = run_all fk (?q4 @ ?q5) (seen m') (db_file m')
            \<and> enforced (snd (?g4 m')) = fk"
    if "enforced m' = fk" for m'
    by (rule and_then_view [where g = ?g5 and qs = ?q4 and qs' = ?q5, OF l4 [OF that] l5])
  have s3: "view (?g3 m') = run_all fk (?q3 @ ?q4 @ ?q5) (seen m') (db_file m')
            \<and> enforced (snd (?g3 m')) = fk"
    if "enforced m' = fk" for m'
    by (rule and_then_view [where g = ?g4 and qs = ?q3 and qs' = "?q4 @ ?q5", OF l3 [OF that] s4])
  have s2: "view (?g2 m') = run_all fk (?q2 @ ?q3 @ ?q4 @ ?q5) (seen m') (db_file m')
            \<and> enforced (snd (?g2 m')) = fk"
    if "enforced m' = fk" for m'
    by (rule and_then_view [where g = ?g3 and qs = ?q2 and qs' = "?q3 @ ?q4 @ ?q5",
          OF l2 [OF that] s3])
  have s1: "view (and_then (for_each divisions insert_division m) ?g2)
              = run_all fk (?q1 @ ?q2 @ ?q3 @ ?q4 @ ?q5) (seen m) (db_file m)
            \<and> enforced (snd (and_then (for_each divisions insert_division m) ?g2)) = fk"
    by (rule and_then_view [where g = ?g2 and qs = ?q1 and qs' = "?q2 @ ?q3 @ ?q4 @ ?q5",
          OF l1 s2])
  show ?thesis
    using s1 unfolding insert_sample_data_def sample_inserts_def fk_def .
qed

lemma insert_sample_data_issued:
  assumes "fst (insert_sample_data m) = Inr ()"
  shows "issued (snd (insert_sample_data m)) = issued m @ map fst sample_inserts"
proof -
  let ?g5 = "\<lambda>m. for_each player_stats insert_player_stat m"
  let ?g4 = "\<lambda>m. and_then (for_each matches insert_match m) ?g5"
  let ?g3 = "\<lambda>m. and_then (for_each players insert_player m) ?g4"
  let ?g2 = "\<lambda>m. and_then (for_each teams insert_team m) ?g3"
  note l1 = loop_issued [of insert_division _ division_values, OF insert_bodies(1)]
  note l2 = loop_issued [of insert_team _ team_values, OF insert_bodies(2)]
  note l3 = loop_issued [of insert_player _ player_values, OF insert_bodies(3)]
  note l4 = loop_issued [of insert_match _ match_values, OF insert_bodies(4)]
  note l5 = loop_issued [of insert_player_stat _ player_stat_values, OF insert_bodies(5)]
  have s4: "issued (snd (?g4 m')) = issued m' @ map fst
      (map (\<lambda>x. (InsertInto Ignore ''matches''
                    [''id'', ''date'', ''division_id'', ''team1_id'', ''team2_id'',
                     ''team1_score'', ''team2_score''], match_values x)) matches
       @ map (\<lambda>x. (InsertInto Ignore ''player_stats''
                    [''id'', ''player_id'', ''match_id'', ''attempts'', ''goals'',
                     ''center_passes'', ''tips'', ''rebounds'', ''interceptions'',
                     ''turnovers''], player_stat_values x)) player_stats)"
    if "fst (?g4 m') = Inr ()" for m'
    using and_then_issued [where g = ?g5 and r = "for_each matches insert_match m'"
        and i = "issued m'", OF that l4 l5]
    by (simp add: comp_def)
  have s3: "issued (snd (?g3 m')) = issued m' @ map fst
      (map (\<lambda>x. (InsertInto Ignore ''players''
                    [''id'', ''name'', ''position'', ''team_id''], player_values x)) players
       @ map (\<lambda>x. (InsertInto Ignore ''matches''
                    [''id'', ''date'', ''division_id'', ''team1_id'', ''team2_id'',
                     ''team1_score'', ''team2_score''], match_values x)) matches
       @ map (\<lambda>x. (InsertInto Ignore ''player_stats''
                    [''id'', ''player_id'', ''match_id'', ''attempts'', ''goals'',
                     ''center_passes'', ''tips'', ''rebounds'', ''interceptions'',
                     ''turnovers''], player_stat_values x)) player_stats)"
    if "fst (?g3 m') = Inr ()" for m'
    using and_then_issued [where g = ?g4 and r = "for_each players insert_player m'"
        and i = "issued m'", OF that l3 s4]
    by (simp add: comp_def)
  have s2: "issued (snd (?g2 m')) = issued m' @ map fst
      (map (\<lambda>x. (InsertInto Ignore ''teams''
                    [''id'', ''name'', ''division_id''], team_values x)) teams
       @ map (\<lambda>x. (InsertInto Ignore ''players''
                    [''id'', ''name'', ''position'', ''team_id''], player_values x)) players
       @ map (\<lambda>x. (InsertInto Ignore ''matches''
                    [''id'', ''date'', ''division_id'', ''team1_id'', ''team2_id'',
                     ''team1_score'', ''team2_score''], match_values x)) matches
       @ map (\<lambda>x. (InsertInto Ignore ''player_stats''
                    [''id'', ''player_id'', ''match_id'', ''attempts'', ''goals'',
                     ''center_passes'', ''tips'', ''rebounds'', ''interceptions'',
                     ''turnovers''], player_stat_values x)) player_stats)"
    if "fst (?g2 m') = Inr ()" for m'
    using and_then_issued [where g = ?g3 and r = "for_each teams insert_team m'"
        and i = "issued m'", OF that l2 s3]
    by (simp add: comp_def)
  show ?thesis
    using and_then_issued [where g = ?g2 and r = "for_each divisions insert_division m"
        and i = "issued m", OF assms [unfolded insert_sample_data_def] l1 s2]
    by (simp add: comp_def insert_sample_data_def sample_inserts_def)
qed

lemma sample_run:
  "run_all True sample_inserts (netball_db [] [] [] [] []) (netball_db [] [] [] [] [])
     = (Inr (), sample_db, sample_db)"
  by code_simp

lemma sample_counts:
  "map (\<lambda>(n, t). (n, length (contents t))) sample_db
     = [(''divisions'', 3), (''teams'', 4), (''players'', 6), (''matches'', 2),
        (''player_stats'', 6)]"
  by code_simp

lemma grows_refl: "grows db db"
  by (simp add: grows_def list_all2_same split: prod.splits)

lemma grows_trans: "grows a b \<Longrightarrow> grows b c \<Longrightarrow> grows a c"
  unfolding grows_def
  by (erule (1) list_all2_trans [rotated]) auto

lemma grows_map_of:
  "grows db db2 \<Longrightarrow> map_of db t = Some tb \<Longrightarrow>
   \<exists>tb2. map_of db2 t = Some tb2 \<and> decl tb2 = decl tb \<and> set (contents tb) \<subseteq> set (contents tb2)"
  unfolding grows_def
  by (induction db db2 rule: list_all2_induct) (auto split: if_splits)

lemma grows_map_of_None: "grows db db2 \<Longrightarrow> map_of db2 t = None \<longleftrightarrow> map_of db t = None"
  unfolding grows_def
  by (induction db db2 rule: list_all2_induct) (auto split: if_splits)

lemma grows_parent_tables:
  "grows db db2 \<Longrightarrow> parent_tables_exist db2 d = parent_tables_exist db d"
  by (simp add: parent_tables_exist_def grows_map_of_None)

lemma grows_keyed: "grows db db2 \<Longrightarrow> keyed db q \<Longrightarrow> keyed db2 q"
proof (induction db q rule: keyed.induct)
  case (1 db t cols ps)
  show ?case
  proof (cases "map_of db t")
    case None
    then show ?thesis using grows_map_of_None [OF "1.prems"(1), of t] by simp
  next
    case (Some tb)
    then show ?thesis using grows_map_of [OF "1.prems"(1) Some] "1.prems"(2) by auto
  qed
qed simp_all

lemma grows_modify_table:
  assumes d: "\<And>t. decl (f t) = decl t"
    and c: "\<And>t x. x \<in> set (contents t) \<Longrightarrow> x \<in> set (contents (f t))"
  shows "grows db (modify_table name f db)"
  by (induction db) (auto simp: grows_def modify_table_def d c split: if_splits)

lemma map_of_modify_table:
  "map_of (modify_table name f db) t =
     (if t = name then map_option f (map_of db t) else map_of db t)"
  by (induction db) (auto simp: modify_table_def)

lemma lookup_complete_row:
  "c \<in> set (column_names d) \<Longrightarrow> map_of (zip cols vals) c = Some v \<Longrightarrow>
   lookup (complete_row d cols vals) c = v"
proof -
  have "c \<in> col_name ` set cs \<Longrightarrow> map_of (zip cols vals) c = Some v \<Longrightarrow>
        map_of (map (\<lambda>c. (col_name c,
               (case map_of (zip cols vals) (col_name c) of
                  Some v \<Rightarrow> v
                | None \<Rightarrow> default_value c))) cs) c = Some v"
    for cs :: "column_decl list"
    by (induction cs) auto
  then show "c \<in> set (column_names d) \<Longrightarrow> map_of (zip cols vals) c = Some v \<Longrightarrow>
   lookup (complete_row d cols vals) c = v"
    by (simp add: lookup_def complete_row_def column_names_def)
qed

lemma insert_row_answers:
  assumes "insert_row fk cf t cols vals db = (Inr cur, db1)"
  obtains tb r where "map_of db t = Some tb"
    and "list_all (\<lambda>c. c \<in> set (column_names (decl tb))) cols"
    and "fk \<longrightarrow> parent_tables_exist db (decl tb)"
    and "length vals = length cols"
    and "\<forall>s. lookup (complete_row (decl tb) cols vals) (primary_key (decl tb)) \<noteq> Text s"
    and "r = (if lookup (complete_row (decl tb) cols vals) (primary_key (decl tb)) = Null
              then set_column (primary_key (decl tb)) (Integer (next_rowid tb))
                     (complete_row (decl tb) cols vals)
              else complete_row (decl tb) cols vals)"
    and "(row_conflict tb r \<noteq> None \<and> cf = Ignore \<and> db1 = db \<and> cur = changed 0) \<or>
         (row_conflict tb r = None \<and> cur = changed 1
          \<and> db1 = modify_table t (\<lambda>t. t\<lparr>contents := contents t @ [r]\<rparr>) db)"
proof -
  obtain tb where tb: "map_of db t = Some tb"
    using assms by (cases "map_of db t") (auto simp: insert_row_def raise_sqlite_def)
  show thesis
    using assms tb that [OF tb]
    by (auto simp: insert_row_def raise_sqlite_def Let_def
          split: if_splits val.splits option.splits conflict.splits)
qed

lemma insert_row_grows:
  assumes "insert_row fk cf t cols vals db = (Inr cur, db1)"
  shows "grows db db1"
  using assms
  by (rule insert_row_answers) (auto simp: grows_refl intro!: grows_modify_table)

lemma row_conflict_None:
  "row_conflict t r = None \<longleftrightarrow> not_null_ok (decl t) r \<and> checks_ok (decl t) r \<and> unique_ok t r"
  by (simp add: row_conflict_def)

lemma unique_ok_fewer_rows:
  "decl t2 = decl t \<Longrightarrow> set (contents t) \<subseteq> set (contents t2) \<Longrightarrow> unique_ok t2 r \<Longrightarrow>
   unique_ok t r"
  by (auto simp: unique_ok_def list_ex_iff)

lemma stored_row_collides:
  "r \<in> set (contents t) \<Longrightarrow> lookup r (primary_key (decl t)) \<noteq> Null \<Longrightarrow> \<not> unique_ok t r"
  by (auto simp: unique_ok_def list_ex_iff same_key_def)

lemma insert_row_ignored:
  assumes "map_of db t = Some tb"
    and "list_all (\<lambda>c. c \<in> set (column_names (decl tb))) cols"
    and "fk \<longrightarrow> parent_tables_exist db (decl tb)"
    and "length vals = length cols"
    and "lookup (complete_row (decl tb) cols vals) (primary_key (decl tb)) = Integer i"
    and "row_conflict tb (complete_row (decl tb) cols vals) \<noteq> None"
  shows "insert_row fk Ignore t cols vals db = (Inr (changed 0), db)"
  using assms by (auto simp: insert_row_def Let_def)

lemma reinsert_ignored:
  assumes ins: "insert_row fk Ignore t cols vals db = (Inr cur, db1)"
    and g: "grows db1 db2"
    and k: "keyed db (InsertInto Ignore t cols, Some vals)"
  shows "insert_row fk Ignore t cols vals db2 = (Inr (changed 0), db2)"
proof -
  from ins obtain tb r where tb: "map_of db t = Some tb"
    and cols: "list_all (\<lambda>c. c \<in> set (column_names (decl tb))) cols"
    and par: "fk \<longrightarrow> parent_tables_exist db (decl tb)"
    and len: "length vals = length cols"
    and r: "r = (if lookup (complete_row (decl tb) cols vals) (primary_key (decl tb)) = Null
              then set_column (primary_key (decl tb)) (Integer (next_rowid tb))
                     (complete_row (decl tb) cols vals)
              else complete_row (decl tb) cols vals)"
    and outcome: "(row_conflict tb r \<noteq> None \<and> Ignore = Ignore \<and> db1 = db \<and> cur = changed 0) \<or>
         (row_conflict tb r = None \<and> cur = changed 1
          \<and> db1 = modify_table t (\<lambda>t. t\<lparr>contents := contents t @ [r]\<rparr>) db)"
    by (rule insert_row_answers)
  let ?r0 = "complete_row (decl tb) cols vals"
  from k tb obtain i where pk: "primary_key (decl tb) \<in> set (column_names (decl tb))"
    and given: "map_of (zip cols vals) (primary_key (decl tb)) = Some (Integer i)"
    by (auto split: option.splits val.splits)
  have key: "lookup ?r0 (primary_key (decl tb)) = Integer i"
    by (rule lookup_complete_row [OF pk given])
  then have r0: "r = ?r0" using r by simp
  have g0: "grows db db2"
    by (rule grows_trans [OF insert_row_grows [OF ins] g])
  obtain tb2 where tb2: "map_of db2 t = Some tb2" and d2: "decl tb2 = decl tb"
    and c2: "set (contents tb) \<subseteq> set (contents tb2)"
    using grows_map_of [OF g0 tb] by blast
  have conflict: "row_conflict tb2 ?r0 \<noteq> None"
  proof
    assume none: "row_conflict tb2 ?r0 = None"
    then have ok2: "not_null_ok (decl tb) ?r0" "checks_ok (decl tb) ?r0" "unique_ok tb2 ?r0"
      by (simp_all add: row_conflict_None d2)
    from outcome show False
    proof
      assume "row_conflict tb r \<noteq> None \<and> Ignore = Ignore \<and> db1 = db \<and> cur = changed 0"
      then have "\<not> unique_ok tb ?r0"
        using ok2(1,2) by (simp add: row_conflict_None r0)
      then show False
        using unique_ok_fewer_rows [OF d2 c2 ok2(3)] by simp
    next
      assume a: "row_conflict tb r = None \<and> cur = changed 1
          \<and> db1 = modify_table t (\<lambda>t. t\<lparr>contents := contents t @ [r]\<rparr>) db"
      then have "map_of db1 t = Some (tb\<lparr>contents := contents tb @ [r]\<rparr>)"
        by (simp add: map_of_modify_table tb)
      from grows_map_of [OF g this] tb2 have "r \<in> set (contents tb2)"
        by auto
      then have "\<not> unique_ok tb2 ?r0"
        using stored_row_collides [of ?r0 tb2] key by (simp add: r0 d2)
      then show False using ok2(3) by simp
    qed
  qed
  show ?thesis
  proof (rule insert_row_ignored [OF tb2])
    show "list_all (\<lambda>c. c \<in> set (column_names (decl tb2))) cols"
      using cols by (simp add: d2)
    show "fk \<longrightarrow> parent_tables_exist db2 (decl tb2)"
      using par by (simp add: d2 grows_parent_tables [OF g0])
    show "length vals = length cols" by (rule len)
    show "lookup (complete_row (decl tb2) cols vals) (primary_key (decl tb2)) = Integer i"
      using key by (simp add: d2)
    show "row_conflict tb2 (complete_row (decl tb2) cols vals) \<noteq> None"
      using conflict by (simp add: d2)
  qed
qed

lemma run_all_step:
  assumes "keyed s q" and "run_all fk (q # qs) s f = (Inr (), s', f')"
  obtains t cols ps cur s1 where "q = (InsertInto Ignore t cols, ps)"
    and "insert_row fk Ignore t cols (bound_values ps) s = (Inr cur, s1)"
    and "run_all fk qs s1 s1 = (Inr (), s', f')"
    and "keyed s (InsertInto Ignore t cols, Some (bound_values ps))"
proof -
  obtain st ps where q: "q = (st, ps)" by (cases q)
  from assms(1) q obtain t cols where st: "st = InsertInto Ignore t cols"
    by (cases "(s, st, ps)" rule: keyed.cases) auto
  obtain r s1 where ins: "insert_row fk Ignore t cols (bound_values ps) s = (r, s1)"
    by (cases "insert_row fk Ignore t cols (bound_values ps) s")
  from assms(2) obtain cur where r: "r = Inr cur"
    and rest: "run_all fk qs s1 s1 = (Inr (), s', f')"
    using ins by (cases r) (auto simp: q st)
  have "keyed s (InsertInto Ignore t cols, Some (bound_values ps))"
    using assms(1) by (auto simp: q st split: option.splits)
  then show thesis
    using that [of t cols ps cur s1] q st ins r rest by simp
qed

lemma run_all_grows:
  assumes "list_all (keyed s) qs" and "run_all fk qs s f = (Inr (), s', f')"
  shows "grows s s'"
  using assms
proof (induction qs arbitrary: s f)
  case Nil
  then show ?case by (simp add: grows_refl)
next
  case (Cons q qs)
  from Cons.prems have kq: "keyed s q" by simp
  from kq Cons.prems(2) obtain t cols ps cur s1 where
    ins: "insert_row fk Ignore t cols (bound_values ps) s = (Inr cur, s1)"
    and rest: "run_all fk qs s1 s1 = (Inr (), s', f')"
    by (rule run_all_step)
  have g1: "grows s s1" by (rule insert_row_grows [OF ins])
  have k1: "list_all (keyed s1) qs"
    using Cons.prems(1) grows_keyed [OF g1] by (simp add: list_all_iff)
  show ?case
    by (rule grows_trans [OF g1 Cons.IH [OF k1 rest]])
qed

lemma run_all_again:
  assumes "list_all (keyed s) qs" and "run_all fk qs s f = (Inr (), s', f')" and "grows s' s2"
  shows "run_all fk qs s2 s2 = (Inr (), s2, s2)"
  using assms
proof (induction qs arbitrary: s f)
  case Nil
  show ?case by simp
next
  case (Cons q qs)
  from Cons.prems have kq: "keyed s q" by simp
  from kq Cons.prems(2) obtain t cols ps cur s1 where
    q: "q = (InsertInto Ignore t cols, ps)"
    and ins: "insert_row fk Ignore t cols (bound_values ps) s = (Inr cur, s1)"
    and rest: "run_all fk qs s1 s1 = (Inr (), s', f')"
    and k: "keyed s (InsertInto Ignore t cols, Some (bound_values ps))"
    by (rule run_all_step)
  have g1: "grows s s1" by (rule insert_row_grows [OF ins])
  have k1: "list_all (keyed s1) qs"
    using Cons.prems(1) grows_keyed [OF g1] by (simp add: list_all_iff)
  have g2: "grows s1 s2"
    by (rule grows_trans [OF run_all_grows [OF k1 rest] Cons.prems(3)])
  have "insert_row fk Ignore t cols (bound_values ps) s2 = (Inr (changed 0), s2)"
    by (rule reinsert_ignored [OF ins g2 k])
  then show ?case
    using Cons.IH [OF k1 rest Cons.prems(3)] by (simp add: q)
qed

lemma run_all_committed:
  "run_all fk qs s s = (Inr u, s', f') \<Longrightarrow> f' = s'"
  by (induction qs arbitrary: s) (auto split: prod.splits sum.splits)

lemma run_all_commits:
  "qs \<noteq> [] \<Longrightarrow> run_all fk qs s f = (Inr u, s', f') \<Longrightarrow> f' = s'"
  by (cases qs) (auto split: prod.splits sum.splits dest: run_all_committed)

lemma sample_keyed_empty: "list_all (keyed (netball_db [] [] [] [] [])) sample_inserts"
  by code_simp

lemma sample_keyed: "list_all (keyed (netball_db ds ts ps ms ss)) sample_inserts"
proof -
  have "grows (netball_db [] [] [] [] []) (netball_db ds ts ps ms ss)"
    by (simp add: grows_def netball_db_def)
  then show ?thesis
    using sample_keyed_empty grows_keyed by (auto simp: list_all_iff)
qed

lemma sample_inserts_not_empty: "sample_inserts \<noteq> []"
  by (simp add: sample_inserts_def divisions_def)

lemma sample_inserts_ignore: "list_all insert_or_ignore (map fst sample_inserts)"
  by code_simp

lemma fresh_schema_view:
  "seen fresh_schema = netball_db [] [] [] [] []"
  "db_file fresh_schema = netball_db [] [] [] [] []"
  "enforced fresh_schema = True"
  by (simp_all add: fresh_schema_state seen_def enforced_def)

lemma insert_sample_data_again:
  assumes "seen m = netball_db ds ts ps ms ss" and "fst (insert_sample_data m) = Inr ()"
  shows "fst (insert_sample_data (snd (insert_sample_data m))) = Inr ()"
    and "db_file (snd (insert_sample_data (snd (insert_sample_data m))))
           = db_file (snd (insert_sample_data m))"
    and "seen (snd (insert_sample_data (snd (insert_sample_data m))))
           = seen (snd (insert_sample_data m))"
proof -
  define m1 where "m1 = snd (insert_sample_data m)"
  have run: "run_all (enforced m) sample_inserts (seen m) (db_file m)
               = (Inr (), seen m1, db_file m1)"
    using insert_sample_data_view [of m] assms(2) by (simp add: view_def m1_def)
  have committed: "db_file m1 = seen m1"
    by (rule run_all_commits [OF sample_inserts_not_empty run])
  have k: "list_all (keyed (seen m)) sample_inserts"
    by (simp add: assms(1) sample_keyed)
  have again: "run_all (enforced m) sample_inserts (seen m1) (seen m1)
                 = (Inr (), seen m1, seen m1)"
    by (rule run_all_again [OF k run grows_refl])
  have e: "enforced m1 = enforced m"
    using insert_sample_data_view [of m] by (simp add: m1_def)
  have "view (insert_sample_data m1) = (Inr (), seen m1, seen m1)"
    using insert_sample_data_view [of m1] again by (simp add: e committed)
  then show "fst (insert_sample_data (snd (insert_sample_data m))) = Inr ()"
    and "db_file (snd (insert_sample_data (snd (insert_sample_data m))))
           = db_file (snd (insert_sample_data m))"
    and "seen (snd (insert_sample_data (snd (insert_sample_data m))))
           = seen (snd (insert_sample_data m))"
    by (simp_all add: view_def m1_def [symmetric] committed)
qed

text \<open>
  Claim C7. On a new database after \<^verbatim>\<open>create_tables\<close>, \<^verbatim>\<open>insert_sample_data\<close>
  succeeds and leaves exactly the sample data in the file: 3 divisions, 4 teams, 6
  players, 2 matches and 6 player-stat rows; every statement it issues is an
  \<^verbatim>\<open>INSERT OR IGNORE\<close>. On every database of this schema, whatever rows it holds: when
  a call of \<^verbatim>\<open>insert_sample_data\<close> raised no error, a second call raises none and
  leaves the file as the first call left it.
\<close>

theorem sample_data_inserted_once:
  "fst (insert_sample_data fresh_schema) = Inr ()
   \<and> db_file (snd (insert_sample_data fresh_schema)) = sample_db
   \<and> map (\<lambda>(n, t). (n, length (contents t))) sample_db
       = [(''divisions'', 3), (''teams'', 4), (''players'', 6), (''matches'', 2),
          (''player_stats'', 6)]
   \<and> issued (snd (insert_sample_data fresh_schema))
       = issued fresh_schema @ map fst sample_inserts
   \<and> list_all insert_or_ignore (map fst sample_inserts)
   \<and> (seen m = netball_db ds ts ps ms ss \<and> fst (insert_sample_data m) = Inr () \<longrightarrow>
        fst (insert_sample_data (snd (insert_sample_data m))) = Inr ()
      \<and> db_file (snd (insert_sample_data (snd (insert_sample_data m))))
          = db_file (snd (insert_sample_data m)))"
proof -
  have v: "view (insert_sample_data fresh_schema) = (Inr (), sample_db, sample_db)"
    using insert_sample_data_view [of fresh_schema] by (simp add: fresh_schema_view sample_run)
  then have ok: "fst (insert_sample_data fresh_schema) = Inr ()"
    and stored: "db_file (snd (insert_sample_data fresh_schema)) = sample_db"
    by (simp_all add: view_def)
  show ?thesis
    using ok stored insert_sample_data_issued [OF ok] sample_counts sample_inserts_ignore
      insert_sample_data_again(1,2) [of m ds ts ps ms ss]
    by simp
qed

theorem sample_data_inserted_once_witness:
  "fst (insert_sample_data (snd (insert_sample_data fresh_schema))) = Inr ()
   \<and> db_file (snd (insert_sample_data (snd (insert_sample_data fresh_schema)))) = sample_db"
  using sample_data_inserted_once [of fresh_schema "[]" "[]" "[]" "[]" "[]"]
  by (simp add: fresh_schema_view)

lemma cascade_keeps: "set dead \<subseteq> set (cascade db dead)"
proof (induction db dead rule: cascade.induct)
  case (1 db dead)
  show ?case
  proof (cases "orphans Cascade db dead = []")
    case True
    then show ?thesis by (simp add: cascade.simps)
  next
    case False
    then show ?thesis
      using "1.IH" [OF False] by (subst cascade.simps) auto
  qed
qed

lemma cascade_closed: "orphans Cascade db (cascade db dead) = []"
proof (induction db dead rule: cascade.induct)
  case (1 db dead)
  show ?case
  proof (cases "orphans Cascade db dead = []")
    case True
    then show ?thesis by (simp add: cascade.simps)
  next
    case False
    then show ?thesis
      using "1.IH" [OF False] by (subst cascade.simps) simp
  qed
qed

lemma cascade_least:
  assumes "\<And>d. set d \<subseteq> S \<Longrightarrow> set (orphans Cascade db d) \<subseteq> S" and "set dead \<subseteq> S"
  shows "set (cascade db dead) \<subseteq> S"
  using assms
proof (induction db dead rule: cascade.induct)
  case (1 db dead)
  show ?case
  proof (cases "orphans Cascade db dead = []")
    case True
    then show ?thesis using "1.prems"(2) by (simp add: cascade.simps)
  next
    case False
    have "set (dead @ orphans Cascade db dead) \<subseteq> S"
      using "1.prems"(2) "1.prems"(1) [OF "1.prems"(2)] by simp
    then show ?thesis
      using "1.IH" [OF False "1.prems"(1)] by (subst cascade.simps) (simp add: False)
  qed
qed

lemma orphaned_iff:
  "orphaned a d r dead \<longleftrightarrow>
     (\<exists>f \<in> set (foreign_key_decls d). on_delete f = a \<and> lookup r (fk_column f) \<noteq> Null \<and>
        (\<exists>pr. (parent_table f, pr) \<in> set dead
              \<and> lookup pr (parent_column f) = lookup r (fk_column f)))"
  by (auto simp: orphaned_def refers_def list_ex_iff)

lemma orphans_iff:
  "(n, r) \<in> set (orphans a db dead) \<longleftrightarrow>
     (\<exists>t. (n, t) \<in> set db \<and> r \<in> set (contents t) \<and> (n, r) \<notin> set dead
          \<and> orphaned a (decl t) r dead)"
  by (auto simp: orphans_def)

lemma refers_to_mono: "X \<subseteq> Y \<Longrightarrow> refers_to c p r X \<Longrightarrow> refers_to c p r Y"
  by (auto simp: refers_to_def)

lemma refers_to_child:
  "\<forall>pr. (p, pr) \<in> X \<longrightarrow> pr \<in> set parents \<Longrightarrow> refers_to c p r X \<Longrightarrow> child_of c parents r"
  unfolding refers_to_def child_of_def by force

lemma child_refers_to:
  "\<forall>pr \<in> set parents. (p, pr) \<in> X \<Longrightarrow> child_of c parents r \<Longrightarrow> refers_to c p r X"
  unfolding refers_to_def child_of_def by force

lemma orphaned_divisions: "\<not> orphaned a divisions_decl r dead"
  by (simp add: orphaned_def divisions_decl_def)

lemma orphaned_teams:
  "orphaned Cascade teams_decl r dead \<longleftrightarrow> refers_to ''division_id'' ''divisions'' r (set dead)"
  by (simp add: orphaned_iff teams_decl_def references_def refers_to_def)

lemma orphaned_players:
  "orphaned Cascade players_decl r dead \<longleftrightarrow> refers_to ''team_id'' ''teams'' r (set dead)"
  by (simp add: orphaned_iff players_decl_def references_def refers_to_def)

lemma orphaned_matches:
  "orphaned Cascade matches_decl r dead \<longleftrightarrow>
     refers_to ''division_id'' ''divisions'' r (set dead)
   \<or> refers_to ''team1_id'' ''teams'' r (set dead)
   \<or> refers_to ''team2_id'' ''teams'' r (set dead)"
  by (simp add: orphaned_iff matches_decl_def references_def refers_to_def)

lemma orphaned_player_stats:
  "orphaned Cascade player_stats_decl r dead \<longleftrightarrow>
     refers_to ''player_id'' ''players'' r (set dead)
   \<or> refers_to ''match_id'' ''matches'' r (set dead)"
  by (simp add: orphaned_iff player_stats_decl_def references_def refers_to_def)

lemma netball_orphans:
  "set (orphans a (netball_db ds ts ps ms ss) dead) =
     Pair ''divisions'' `
       {r \<in> set ds. (''divisions'', r) \<notin> set dead \<and> orphaned a divisions_decl r dead}
   \<union> Pair ''teams'' `
       {r \<in> set ts. (''teams'', r) \<notin> set dead \<and> orphaned a teams_decl r dead}
   \<union> Pair ''players'' `
       {r \<in> set ps. (''players'', r) \<notin> set dead \<and> orphaned a players_decl r dead}
   \<union> Pair ''matches'' `
       {r \<in> set ms. (''matches'', r) \<notin> set dead \<and> orphaned a matches_decl r dead}
   \<union> Pair ''player_stats'' `
       {r \<in> set ss. (''player_stats'', r) \<notin> set dead \<and> orphaned a player_stats_decl r dead}"
  by (simp add: orphans_def netball_db_def) blast

lemma owned_rows:
  "(''divisions'', r) \<in> owned d ds ts ps ms ss \<longleftrightarrow> r \<in> set (division_rows d ds)"
  "(''teams'', r) \<in> owned d ds ts ps ms ss \<longleftrightarrow> r \<in> set (teams_of (division_rows d ds) ts)"
  "(''players'', r) \<in> owned d ds ts ps ms ss \<longleftrightarrow>
     r \<in> set (players_of (teams_of (division_rows d ds) ts) ps)"
  "(''matches'', r) \<in> owned d ds ts ps ms ss \<longleftrightarrow>
     r \<in> set (matches_of (division_rows d ds) (teams_of (division_rows d ds) ts) ms)"
  "(''player_stats'', r) \<in> owned d ds ts ps ms ss \<longleftrightarrow>
     r \<in> set (stats_of (players_of (teams_of (division_rows d ds) ts) ps)
                 (matches_of (division_rows d ds) (teams_of (division_rows d ds) ts) ms) ss)"
  by (simp_all add: owned_def Let_def image_iff)

lemma owned_closed:
  assumes sub: "set dead \<subseteq> owned d ds ts ps ms ss"
  shows "set (orphans Cascade (netball_db ds ts ps ms ss) dead) \<subseteq> owned d ds ts ps ms ss"
proof -
  let ?O = "owned d ds ts ps ms ss"
  let ?D = "division_rows d ds"
  let ?T = "teams_of ?D ts"
  let ?P = "players_of ?T ps"
  let ?M = "matches_of ?D ?T ms"
  have div: "child_of c ?D r" if "refers_to c ''divisions'' r (set dead)" for c r
    using refers_to_mono [OF sub that] by (rule refers_to_child [rotated]) (simp add: owned_rows)
  have team: "child_of c ?T r" if "refers_to c ''teams'' r (set dead)" for c r
    using refers_to_mono [OF sub that] by (rule refers_to_child [rotated]) (simp add: owned_rows)
  have player: "child_of c ?P r" if "refers_to c ''players'' r (set dead)" for c r
    using refers_to_mono [OF sub that] by (rule refers_to_child [rotated]) (simp add: owned_rows)
  have match: "child_of c ?M r" if "refers_to c ''matches'' r (set dead)" for c r
    using refers_to_mono [OF sub that] by (rule refers_to_child [rotated]) (simp add: owned_rows)
  have 1: "(''teams'', r) \<in> ?O" if "r \<in> set ts" "orphaned Cascade teams_decl r dead" for r
    using that div by (auto simp: owned_rows orphaned_teams teams_of_def)
  have 2: "(''players'', r) \<in> ?O" if "r \<in> set ps" "orphaned Cascade players_decl r dead" for r
    using that team by (auto simp: owned_rows orphaned_players players_of_def)
  have 3: "(''matches'', r) \<in> ?O" if "r \<in> set ms" "orphaned Cascade matches_decl r dead" for r
    using that div team by (auto simp: owned_rows orphaned_matches matches_of_def)
  have 4: "(''player_stats'', r) \<in> ?O"
    if "r \<in> set ss" "orphaned Cascade player_stats_decl r dead" for r
    using that player match by (auto simp: owned_rows orphaned_player_stats stats_of_def)
  show ?thesis
    unfolding netball_orphans using 1 2 3 4 by (auto simp: orphaned_divisions)
qed

lemma owned_reached:
  assumes closed: "orphans Cascade (netball_db ds ts ps ms ss) dead = []"
    and start: "Pair ''divisions'' ` set (division_rows d ds) \<subseteq> set dead"
  shows "owned d ds ts ps ms ss \<subseteq> set dead"
proof -
  let ?D = "division_rows d ds"
  let ?T = "teams_of ?D ts"
  let ?P = "players_of ?T ps"
  let ?M = "matches_of ?D ?T ms"
  let ?S = "stats_of ?P ?M ss"
  have "set (orphans Cascade (netball_db ds ts ps ms ss) dead) = {}"
    using closed by simp
  then have none:
    "\<And>r. r \<in> set ts \<Longrightarrow> orphaned Cascade teams_decl r dead \<Longrightarrow> (''teams'', r) \<in> set dead"
    "\<And>r. r \<in> set ps \<Longrightarrow> orphaned Cascade players_decl r dead \<Longrightarrow> (''players'', r) \<in> set dead"
    "\<And>r. r \<in> set ms \<Longrightarrow> orphaned Cascade matches_decl r dead \<Longrightarrow> (''matches'', r) \<in> set dead"
    "\<And>r. r \<in> set ss \<Longrightarrow> orphaned Cascade player_stats_decl r dead \<Longrightarrow>
          (''player_stats'', r) \<in> set dead"
    unfolding netball_orphans by auto
  have D: "\<forall>r \<in> set ?D. (''divisions'', r) \<in> set dead"
    using start by auto
  have T: "\<forall>r \<in> set ?T. (''teams'', r) \<in> set dead"
    using none(1) child_refers_to [OF D] by (auto simp: teams_of_def orphaned_teams)
  have P: "\<forall>r \<in> set ?P. (''players'', r) \<in> set dead"
    using none(2) child_refers_to [OF T] by (auto simp: players_of_def orphaned_players)
  have M: "\<forall>r \<in> set ?M. (''matches'', r) \<in> set dead"
    using none(3) child_refers_to [OF D] child_refers_to [OF T]
    by (auto simp: matches_of_def orphaned_matches)
  have S: "\<forall>r \<in> set ?S. (''player_stats'', r) \<in> set dead"
    using none(4) child_refers_to [OF P] child_refers_to [OF M]
    by (auto simp: stats_of_def orphaned_player_stats)
  show ?thesis
    using D T P M S by (auto simp: owned_def Let_def)
qed

lemma cascade_owned:
  "set (cascade (netball_db ds ts ps ms ss) (map (Pair ''divisions'') (division_rows d ds)))
     = owned d ds ts ps ms ss"
proof (rule equalityI)
  show "set (cascade (netball_db ds ts ps ms ss) (map (Pair ''divisions'') (division_rows d ds)))
          \<subseteq> owned d ds ts ps ms ss"
    by (rule cascade_least [OF owned_closed]) (auto simp: owned_rows)
  show "owned d ds ts ps ms ss
          \<subseteq> set (cascade (netball_db ds ts ps ms ss)
                     (map (Pair ''divisions'') (division_rows d ds)))"
    using cascade_keeps [of "map (Pair ''divisions'') (division_rows d ds)"
        "netball_db ds ts ps ms ss"]
    by (intro owned_reached [OF cascade_closed]) simp
qed

lemma no_restrict_netball: "no_restrict (netball_db ds ts ps ms ss)"
  by (simp add: no_restrict_def netball_db_def divisions_decl_def teams_decl_def
      players_decl_def matches_decl_def player_stats_decl_def references_def)

lemma remove_owned:
  assumes "set dead = owned d ds ts ps ms ss"
  shows "remove_rows dead (netball_db ds ts ps ms ss) = after_delete d ds ts ps ms ss"
  by (simp add: remove_rows_def netball_db_def after_delete_def Let_def without_def assms
      owned_rows)

lemma delete_division:
  "delete_where True ''divisions'' ''id'' [Integer d] (netball_db ds ts ps ms ss)
     = (Inr (changed (int (length (division_rows d ds)))), after_delete d ds ts ps ms ss)"
proof -
  let ?db = "netball_db ds ts ps ms ss"
  have t: "map_of ?db ''divisions'' = Some \<lparr>decl = divisions_decl, contents = ds\<rparr>"
    by (simp add: netball_db_def)
  have c: "''id'' \<in> set (column_names divisions_decl)"
    by (simp add: column_names_def divisions_decl_def column_def)
  have m: "matching \<lparr>decl = divisions_decl, contents = ds\<rparr> ''id'' (Integer d)
             = division_rows d ds"
    by (simp add: matching_def division_rows_def)
  have "delete_rows True ''divisions'' (division_rows d ds) ?db
          = Inr (after_delete d ds ts ps ms ss)"
    by (simp add: delete_rows_cascades [OF no_restrict_netball] remove_owned [OF cascade_owned])
  then show ?thesis
    by (simp add: delete_where_def t c m)
qed

text \<open>
  Claim C2. On the database that \<^verbatim>\<open>create_tables\<close> makes, whatever rows it holds, with
  foreign keys enforced (as on every connection the manager opens): deleting the
  division with id \<open>d\<close> through \<^verbatim>\<open>execute_query\<close> succeeds and leaves the file without
  the division, the teams of the division, the players of those teams, the matches that
  reference the division or one of those teams, and the player stats that reference one
  of those players or matches; every other row is left as it was. The same holds when
  \<^verbatim>\<open>create_tables\<close> is called again before the delete.
\<close>

theorem division_delete_cascades:
  "(seen m = netball_db ds ts ps ms ss \<and> enforced m \<longrightarrow>
      fst (execute_query sqlite m (DeleteWhere ''divisions'' ''id'') (Some [Integer d]))
        = Inr (int (length (division_rows d ds)))
    \<and> db_file (snd (execute_query sqlite m (DeleteWhere ''divisions'' ''id'')
                       (Some [Integer d])))
        = after_delete d ds ts ps ms ss)
   \<and> (seen m = netball_db ds ts ps ms ss \<and> enforced m \<longrightarrow>
      fst (execute_query sqlite (snd (create_tables m)) (DeleteWhere ''divisions'' ''id'')
             (Some [Integer d]))
        = Inr (int (length (division_rows d ds)))
    \<and> db_file (snd (execute_query sqlite (snd (create_tables m))
                       (DeleteWhere ''divisions'' ''id'') (Some [Integer d])))
        = after_delete d ds ts ps ms ss)"
proof -
  have direct: "fst (execute_query sqlite m' (DeleteWhere ''divisions'' ''id'') (Some [Integer d]))
        = Inr (int (length (division_rows d ds)))
    \<and> db_file (snd (execute_query sqlite m' (DeleteWhere ''divisions'' ''id'')
                       (Some [Integer d])))
        = after_delete d ds ts ps ms ss"
    if "seen m' = netball_db ds ts ps ms ss" and "enforced m'" for m' :: db_manager
  proof -
    have "sqlite (enforced m') (DeleteWhere ''divisions'' ''id'') (bound_values (Some [Integer d]))
            (seen m')
          = (Inr (changed (int (length (division_rows d ds)))), after_delete d ds ts ps ms ss)"
      using that by (simp add: delete_division)
    from execute_query_ok(1,3) [where E = sqlite, OF this] show ?thesis
      by (simp add: changed_def)
  qed
  have again: "seen (snd (create_tables m)) = netball_db ds ts ps ms ss
               \<and> enforced (snd (create_tables m))"
    if "seen m = netball_db ds ts ps ms ss" and "enforced m"
    using that by (simp add: create_tables_view declared_netball)
  show ?thesis
    using direct [of m] direct [of "snd (create_tables m)"] again by blast
qed

lemma sample_state_view:
  "seen (snd (insert_sample_data fresh_schema)) = sample_db"
  "enforced (snd (insert_sample_data fresh_schema))"
  using insert_sample_data_view [of fresh_schema]
  by (simp_all add: fresh_schema_view sample_run view_def)

lemma sample_after_delete:
  "int (length (division_rows 1 sample_division_rows)) = 1"
  "after_delete 1 sample_division_rows sample_team_rows sample_player_rows sample_match_rows
     sample_player_stat_rows
   = netball_db (drop 1 sample_division_rows) (drop 2 sample_team_rows)
       (drop 4 sample_player_rows) (drop 1 sample_match_rows) (drop 4 sample_player_stat_rows)"
  by code_simp+

theorem division_delete_cascades_witness:
  "fst (execute_query sqlite (snd (insert_sample_data fresh_schema))
          (DeleteWhere ''divisions'' ''id'') (Some [Integer 1])) = Inr 1
   \<and> db_file (snd (execute_query sqlite (snd (insert_sample_data fresh_schema))
          (DeleteWhere ''divisions'' ''id'') (Some [Integer 1])))
     = netball_db (drop 1 sample_division_rows) (drop 2 sample_team_rows)
         (drop 4 sample_player_rows) (drop 1 sample_match_rows) (drop 4 sample_player_stat_rows)"
  using division_delete_cascades [of "snd (insert_sample_data fresh_schema)"
      sample_division_rows sample_team_rows sample_player_rows sample_match_rows
      sample_player_stat_rows 1]
  by (simp add: sample_state_view sample_after_delete sample_db_def [symmetric])























end
